theory Spec2Isabelle
  imports Complex_Main "HOL-Library.AList"
begin

section \<open>Numbers, strings and records of the image parser\<close>

text \<open>
  The program is TypeScript. Its numbers are IEEE doubles; the model reads scales,
  confidences and similarities as \<^typ>\<open>real\<close> (exact arithmetic) and pixel
  coordinates, which the code only produces through \<^verbatim>\<open>Math.round\<close> or as integer
  literals, as \<^typ>\<open>int\<close>. Its strings are sequences of UTF-16 code units; a recognised
  text is a list of code units (\<^typ>\<open>nat\<close>), while the property names of the
  extracted-field object, all ASCII, are \<^typ>\<open>string\<close>.
\<close>

type_synonym jstring = "nat list"

definition js :: "string \<Rightarrow> jstring" where
  "js s = map of_char s"

text \<open>\<^verbatim>\<open>Math.round\<close>: nearest integer, a tie going up.\<close>

definition js_round :: "real \<Rightarrow> int" where
  "js_round v = \<lfloor>v + 1 / 2\<rfloor>"

record TemplateMatch =
  tm_x :: real
  tm_y :: real
  tm_scaleX :: real
  tm_scaleY :: real
  tm_confidence :: real

datatype RegionType = Stats | Aptitudes | Skills | Name

record DataRegion =
  r_name :: string
  r_x :: int
  r_y :: int
  r_width :: int
  r_height :: int
  r_type :: RegionType

record Point =
  pt_x :: real
  pt_y :: real

record Scales =
  scaleX :: real
  scaleY :: real

text \<open>\<^verbatim>\<open>TEMPLATE_POSITIONS\<close>: the anchors of the two templates in the reference image.\<close>

definition TEMPLATE_POSITIONS_change :: Point where
  "TEMPLATE_POSITIONS_change = \<lparr>pt_x = 852, pt_y = 292\<rparr>"

definition TEMPLATE_POSITIONS_headers :: Point where
  "TEMPLATE_POSITIONS_headers = \<lparr>pt_x = 38, pt_y = 404\<rparr>"

subsection \<open>Calibration\<close>

definition calculateScales :: "TemplateMatch \<Rightarrow> TemplateMatch \<Rightarrow> Scales" where
  "calculateScales changeMatch headersMatch =
     (let averageScaleX = (tm_scaleX changeMatch + tm_scaleX headersMatch) / 2;
          averageScaleY = (tm_scaleY changeMatch + tm_scaleY headersMatch) / 2
      in \<lparr>scaleX = averageScaleX, scaleY = averageScaleY\<rparr>)"

text \<open>The source passes \<^verbatim>\<open>scales\<close> to \<^verbatim>\<open>calculateOffset\<close> and never reads it.\<close>

definition calculateOffset :: "TemplateMatch \<Rightarrow> TemplateMatch \<Rightarrow> Scales \<Rightarrow> Point" where
  "calculateOffset changeMatch headersMatch scales =
     (let changeOffsetX = tm_x changeMatch - pt_x TEMPLATE_POSITIONS_change * tm_scaleX changeMatch;
          changeOffsetY = tm_y changeMatch - pt_y TEMPLATE_POSITIONS_change * tm_scaleY changeMatch;
          headersOffsetX = tm_x headersMatch - pt_x TEMPLATE_POSITIONS_headers * tm_scaleX headersMatch;
          headersOffsetY = tm_y headersMatch - pt_y TEMPLATE_POSITIONS_headers * tm_scaleY headersMatch
      in \<lparr>pt_x = (changeOffsetX + headersOffsetX) / 2,
          pt_y = (changeOffsetY + headersOffsetY) / 2\<rparr>)"

definition adjustRegion :: "DataRegion \<Rightarrow> Scales \<Rightarrow> Point \<Rightarrow> DataRegion" where
  "adjustRegion region scales offset =
     region\<lparr>r_x := js_round (real_of_int (r_x region) * scaleX scales + pt_x offset),
            r_y := js_round (real_of_int (r_y region) * scaleY scales + pt_y offset),
            r_width := js_round (real_of_int (r_width region) * scaleX scales),
            r_height := js_round (real_of_int (r_height region) * scaleY scales)\<rparr>"

subsection \<open>Multi-scale template search\<close>

text \<open>
  \<^verbatim>\<open>findBestTemplateMatch\<close> drives OpenCV (\<^verbatim>\<open>cv.resize\<close>,
  \<^verbatim>\<open>cv.matchTemplate\<close>, \<^verbatim>\<open>cv.minMaxLoc\<close>), which the repository does not
  implement. For one uploaded image and one template the outcome of these three calls
  depends on the scaled template size only, so the model takes it as the function
  \<open>t_match\<close>: scaled width and height to \<open>(maxVal, maxLoc.x, maxLoc.y)\<close>.
\<close>

record Template =
  t_width :: int
  t_height :: int
  t_match :: "int \<Rightarrow> int \<Rightarrow> real \<times> real \<times> real"

text \<open>The variables the closures \<^verbatim>\<open>testScale\<close> and \<^verbatim>\<open>binarySearchScale\<close> share.\<close>

record SearchState =
  minScale :: real
  maxScale :: real
  stepCount :: nat
  bestMatch :: "TemplateMatch option"
  bestConfidence :: real

definition maxSteps :: nat where
  "maxSteps = 10"

text \<open>\<^verbatim>\<open>testScale\<close> returns the confidence and, as a side effect, updates the best match.\<close>

definition testScale :: "int \<Rightarrow> int \<Rightarrow> Template \<Rightarrow> real \<Rightarrow> SearchState \<Rightarrow> real \<times> SearchState" where
  "testScale imageWidth imageHeight template scale st =
     (let scaledWidth = js_round (real_of_int (t_width template) * scale);
          scaledHeight = js_round (real_of_int (t_height template) * scale)
      in if scaledWidth > imageWidth \<or> scaledHeight > imageHeight then (0, st)
         else (case t_match template scaledWidth scaledHeight of
                 (confidence, locx, locy) \<Rightarrow>
                   (confidence,
                    if confidence > bestConfidence st
                    then st\<lparr>bestConfidence := confidence,
                            bestMatch := Some \<lparr>tm_x = locx, tm_y = locy, tm_scaleX = scale,
                                               tm_scaleY = scale, tm_confidence = confidence\<rparr>\<rparr>
                    else st)))"

text \<open>One pass through the body of \<^verbatim>\<open>binarySearchScale\<close> below its exit test.\<close>

definition searchStep :: "int \<Rightarrow> int \<Rightarrow> Template \<Rightarrow> SearchState \<Rightarrow> SearchState" where
  "searchStep imageWidth imageHeight template st0 =
     (let st = st0\<lparr>stepCount := stepCount st0 + 1\<rparr>;
          lowScale = minScale st + (maxScale st - minScale st) * (25 / 100);
          midScale = (minScale st + maxScale st) / 2;
          highScale = minScale st + (maxScale st - minScale st) * (75 / 100)
      in case testScale imageWidth imageHeight template lowScale st of
           (lowConfidence, st1) \<Rightarrow>
         case testScale imageWidth imageHeight template midScale st1 of
           (midConfidence, st2) \<Rightarrow>
         case testScale imageWidth imageHeight template highScale st2 of
           (highConfidence, st3) \<Rightarrow>
             if lowConfidence \<ge> midConfidence \<and> lowConfidence \<ge> highConfidence
             then st3\<lparr>maxScale := midScale\<rparr>
             else if highConfidence \<ge> midConfidence \<and> highConfidence \<ge> lowConfidence
             then st3\<lparr>minScale := midScale\<rparr>
             else st3\<lparr>minScale := lowScale, maxScale := highScale\<rparr>)"

lemma stepCount_testScale:
  "stepCount (snd (testScale iw ih t s st)) = stepCount st"
  by (simp add: testScale_def Let_def split: prod.splits)

lemma stepCount_searchStep:
  "stepCount (searchStep iw ih t st) = stepCount st + 1"
proof -
  have a: "\<And>s st c st'. testScale iw ih t s st = (c, st') \<Longrightarrow> stepCount st' = stepCount st"
    using stepCount_testScale by (metis snd_conv)
  show ?thesis
    by (auto simp: searchStep_def Let_def split: prod.splits dest!: a)
qed

function binarySearchScale :: "int \<Rightarrow> int \<Rightarrow> Template \<Rightarrow> SearchState \<Rightarrow> TemplateMatch option" where
  "binarySearchScale imageWidth imageHeight template st =
     (if stepCount st \<ge> maxSteps then bestMatch st
      else binarySearchScale imageWidth imageHeight template
             (searchStep imageWidth imageHeight template st))"
  by pat_completeness auto
termination
  by (relation "measure (\<lambda>(iw, ih, t, st). maxSteps - stepCount st)")
     (auto simp: stepCount_searchStep)

declare binarySearchScale.simps [simp del]

definition findBestTemplateMatch :: "int \<Rightarrow> int \<Rightarrow> Template \<Rightarrow> TemplateMatch option" where
  "findBestTemplateMatch imageWidth imageHeight template =
     binarySearchScale imageWidth imageHeight template
       \<lparr>minScale = 3 / 10, maxScale = 2, stepCount = 0, bestMatch = None, bestConfidence = - 1\<rparr>"

subsection \<open>What the search has evaluated\<close>

text \<open>What one probe contributes: nothing when the scaled template does not fit.\<close>

definition probeFits :: "int \<Rightarrow> int \<Rightarrow> Template \<Rightarrow> real \<Rightarrow> bool" where
  "probeFits iw ih t s =
     (\<not> (js_round (real_of_int (t_width t) * s) > iw \<or> js_round (real_of_int (t_height t) * s) > ih))"

definition probeMatch :: "Template \<Rightarrow> real \<Rightarrow> TemplateMatch" where
  "probeMatch t s =
     (case t_match t (js_round (real_of_int (t_width t) * s)) (js_round (real_of_int (t_height t) * s)) of
        (confidence, locx, locy) \<Rightarrow>
          \<lparr>tm_x = locx, tm_y = locy, tm_scaleX = s, tm_scaleY = s, tm_confidence = confidence\<rparr>)"

definition probeConfidence :: "int \<Rightarrow> int \<Rightarrow> Template \<Rightarrow> real \<Rightarrow> real" where
  "probeConfidence iw ih t s = (if probeFits iw ih t s then tm_confidence (probeMatch t s) else 0)"

definition keepBest :: "TemplateMatch option \<times> real \<Rightarrow> TemplateMatch \<Rightarrow> TemplateMatch option \<times> real" where
  "keepBest b m = (if tm_confidence m > snd b then (Some m, tm_confidence m) else b)"

definition probeMatches :: "int \<Rightarrow> int \<Rightarrow> Template \<Rightarrow> real \<Rightarrow> TemplateMatch list" where
  "probeMatches iw ih t s = (if probeFits iw ih t s then [probeMatch t s] else [])"

definition probeScales :: "SearchState \<Rightarrow> real list" where
  "probeScales st =
     [minScale st + (maxScale st - minScale st) * (25 / 100),
      (minScale st + maxScale st) / 2,
      minScale st + (maxScale st - minScale st) * (75 / 100)]"

fun evaluated :: "int \<Rightarrow> int \<Rightarrow> Template \<Rightarrow> nat \<Rightarrow> SearchState \<Rightarrow> TemplateMatch list" where
  "evaluated iw ih t 0 st = []"
| "evaluated iw ih t (Suc n) st =
     concat (map (probeMatches iw ih t) (probeScales st)) @ evaluated iw ih t n (searchStep iw ih t st)"

lemma testScale_eq:
  "testScale iw ih t s st =
     (probeConfidence iw ih t s,
      st\<lparr>bestMatch := fst (foldl keepBest (bestMatch st, bestConfidence st) (probeMatches iw ih t s)),
         bestConfidence := snd (foldl keepBest (bestMatch st, bestConfidence st) (probeMatches iw ih t s))\<rparr>)"
  by (auto simp: testScale_def probeConfidence_def probeMatches_def probeFits_def probeMatch_def
      keepBest_def Let_def split: prod.splits)

lemma searchStep_best:
  "(bestMatch (searchStep iw ih t st), bestConfidence (searchStep iw ih t st)) =
     foldl keepBest (bestMatch st, bestConfidence st) (concat (map (probeMatches iw ih t) (probeScales st)))"
  by (simp add: searchStep_def testScale_eq probeScales_def Let_def)

lemma searchStep_interval:
  "(minScale (searchStep iw ih t st), maxScale (searchStep iw ih t st)) =
     (let lowScale = minScale st + (maxScale st - minScale st) * (25 / 100);
          midScale = (minScale st + maxScale st) / 2;
          highScale = minScale st + (maxScale st - minScale st) * (75 / 100);
          lowConfidence = probeConfidence iw ih t lowScale;
          midConfidence = probeConfidence iw ih t midScale;
          highConfidence = probeConfidence iw ih t highScale
      in if midConfidence > lowConfidence \<and> midConfidence > highConfidence then (lowScale, highScale)
         else if lowConfidence \<ge> highConfidence then (minScale st, midScale)
         else (midScale, maxScale st))"
  by (simp add: searchStep_def testScale_eq Let_def)

lemma funpow_best:
  "(bestMatch ((searchStep iw ih t ^^ n) st), bestConfidence ((searchStep iw ih t ^^ n) st)) =
     foldl keepBest (bestMatch st, bestConfidence st) (evaluated iw ih t n st)"
proof (induction n arbitrary: st)
  case 0
  show ?case by simp
next
  case (Suc n)
  show ?case
    using Suc.IH [of "searchStep iw ih t st"] searchStep_best [of iw ih t st]
    by (simp add: funpow_swap1)
qed

lemma binarySearchScale_funpow:
  "binarySearchScale iw ih t st = bestMatch ((searchStep iw ih t ^^ (maxSteps - stepCount st)) st)"
proof (induction iw ih t st rule: binarySearchScale.induct)
  case (1 iw ih t st)
  show ?case
  proof (cases "stepCount st \<ge> maxSteps")
    case True
    then show ?thesis by (simp add: binarySearchScale.simps)
  next
    case False
    then have "maxSteps - stepCount st = Suc (maxSteps - stepCount (searchStep iw ih t st))"
      by (simp add: stepCount_searchStep)
    with False 1 show ?thesis
      by (simp add: binarySearchScale.simps [of iw ih t st] funpow_swap1)
  qed
qed

lemma keepBest_gt: "tm_confidence m > c \<Longrightarrow> keepBest (b, c) m = (Some m, tm_confidence m)"
  by (simp add: keepBest_def)

lemma keepBest_le: "\<not> tm_confidence m > c \<Longrightarrow> keepBest (b, c) m = (b, c)"
  by (simp add: keepBest_def)

lemma foldl_keepBest:
  "foldl keepBest (b, c) ms = (b', c') \<Longrightarrow>
     c \<le> c' \<and> (\<forall>m \<in> set ms. tm_confidence m \<le> c')
     \<and> (b' = b \<and> c' = c \<or> (\<exists>m \<in> set ms. b' = Some m \<and> c' = tm_confidence m \<and> c < c'))"
proof (induction ms arbitrary: b c)
  case Nil
  then show ?case by simp
next
  case (Cons m ms)
  show ?case
  proof (cases "tm_confidence m > c")
    case True
    with Cons.prems have "foldl keepBest (Some m, tm_confidence m) ms = (b', c')"
      by (simp add: keepBest_gt)
    from Cons.IH [OF this] True show ?thesis by auto
  next
    case False
    with Cons.prems have "foldl keepBest (b, c) ms = (b', c')"
      by (simp add: keepBest_le)
    from Cons.IH [OF this] False show ?thesis by auto
  qed
qed

definition searchStart :: SearchState where
  "searchStart = \<lparr>minScale = 3 / 10, maxScale = 2, stepCount = 0, bestMatch = None, bestConfidence = - 1\<rparr>"

lemma findBest_best:
  "findBestTemplateMatch iw ih t = fst (foldl keepBest (None, - 1) (evaluated iw ih t maxSteps searchStart))"
proof -
  have "fst (bestMatch ((searchStep iw ih t ^^ maxSteps) searchStart),
             bestConfidence ((searchStep iw ih t ^^ maxSteps) searchStart))
        = fst (foldl keepBest (bestMatch searchStart, bestConfidence searchStart)
                 (evaluated iw ih t maxSteps searchStart))"
    by (simp only: funpow_best)
  then show ?thesis
    by (simp add: findBestTemplateMatch_def binarySearchScale_funpow searchStart_def)
qed

lemma findBest_cases:
  "(findBestTemplateMatch iw ih t = None \<and>
      (\<forall>m \<in> set (evaluated iw ih t maxSteps searchStart). tm_confidence m \<le> - 1))
   \<or> (\<exists>m \<in> set (evaluated iw ih t maxSteps searchStart).
        findBestTemplateMatch iw ih t = Some m \<and> - 1 < tm_confidence m \<and>
        (\<forall>m' \<in> set (evaluated iw ih t maxSteps searchStart). tm_confidence m' \<le> tm_confidence m))"
proof -
  obtain b c where bc: "foldl keepBest (None, - 1) (evaluated iw ih t maxSteps searchStart) = (b, c)"
    by (cases "foldl keepBest (None, - 1) (evaluated iw ih t maxSteps searchStart)")
  have r: "findBestTemplateMatch iw ih t = b"
    by (simp add: findBest_best bc)
  from foldl_keepBest [OF bc] show ?thesis
    unfolding r by auto
qed

section \<open>Regions\<close>

text \<open>\<^verbatim>\<open>DATA_REGIONS\<close>: the static catalog, in reference-image coordinates.\<close>

definition DATA_REGIONS :: "DataRegion list" where
  "DATA_REGIONS =
    [\<lparr>r_name = ''uma_outfit'', r_x = 553, r_y = 117, r_width = 456, r_height = 84, r_type = Name\<rparr>,
     \<lparr>r_name = ''uma_name'', r_x = 565, r_y = 195, r_width = 420, r_height = 64, r_type = Name\<rparr>,
     \<lparr>r_name = ''speed'', r_x = 118, r_y = 453, r_width = 106, r_height = 56, r_type = Stats\<rparr>,
     \<lparr>r_name = ''stamina'', r_x = 319, r_y = 453, r_width = 106, r_height = 56, r_type = Stats\<rparr>,
     \<lparr>r_name = ''power'', r_x = 523, r_y = 453, r_width = 106, r_height = 56, r_type = Stats\<rparr>,
     \<lparr>r_name = ''guts'', r_x = 731, r_y = 453, r_width = 106, r_height = 56, r_type = Stats\<rparr>,
     \<lparr>r_name = ''wit'', r_x = 923, r_y = 453, r_width = 106, r_height = 56, r_type = Stats\<rparr>,
     \<lparr>r_name = ''turf_aptitude'', r_x = 386, r_y = 551, r_width = 40, r_height = 40, r_type = Aptitudes\<rparr>,
     \<lparr>r_name = ''dirt_aptitude'', r_x = 578, r_y = 551, r_width = 40, r_height = 40, r_type = Aptitudes\<rparr>,
     \<lparr>r_name = ''sprint_aptitude'', r_x = 386, r_y = 610, r_width = 40, r_height = 40, r_type = Aptitudes\<rparr>,
     \<lparr>r_name = ''mile_aptitude'', r_x = 578, r_y = 610, r_width = 40, r_height = 40, r_type = Aptitudes\<rparr>,
     \<lparr>r_name = ''medium_aptitude'', r_x = 770, r_y = 610, r_width = 40, r_height = 40, r_type = Aptitudes\<rparr>,
     \<lparr>r_name = ''long_aptitude'', r_x = 960, r_y = 610, r_width = 40, r_height = 40, r_type = Aptitudes\<rparr>,
     \<lparr>r_name = ''front_aptitude'', r_x = 386, r_y = 672, r_width = 40, r_height = 40, r_type = Aptitudes\<rparr>,
     \<lparr>r_name = ''pace_aptitude'', r_x = 578, r_y = 672, r_width = 40, r_height = 40, r_type = Aptitudes\<rparr>,
     \<lparr>r_name = ''late_aptitude'', r_x = 770, r_y = 672, r_width = 40, r_height = 40, r_type = Aptitudes\<rparr>,
     \<lparr>r_name = ''end_aptitude'', r_x = 960, r_y = 672, r_width = 40, r_height = 40, r_type = Aptitudes\<rparr>]"

text \<open>
  The template literal \<^verbatim>\<open>`skill_${skillIndex}`\<close>: the decimal numeral of a counter
  that starts at 1 and only grows.
\<close>

definition digitChar :: "nat \<Rightarrow> char" where
  "digitChar d = ''0123456789'' ! d"

function decimal :: "nat \<Rightarrow> string" where
  "decimal n = (if n < 10 then [digitChar n] else decimal (n div 10) @ [digitChar (n mod 10)])"
  by pat_completeness auto
termination
  by (relation "measure id") auto

declare decimal.simps [simp del]

definition skill_key :: "nat \<Rightarrow> string" where
  "skill_key skillIndex = ''skill_'' @ decimal skillIndex"

definition skillYInterval :: int where "skillYInterval = 112"
definition startY :: int where "startY = 864"
definition leftX :: int where "leftX = 112"
definition rightX :: int where "rightX = 615"
definition skillWidth :: int where "skillWidth = 320"
definition skillHeight :: int where "skillHeight = 68"

text \<open>
  The \<^verbatim>\<open>while\<close> loop of \<^verbatim>\<open>generateSkillRegions\<close>, with its three variables
  \<^verbatim>\<open>skillIndex\<close>, \<^verbatim>\<open>currentY\<close> and \<^verbatim>\<open>skillRegions\<close>.
\<close>

function generateSkillRegions_loop ::
  "int \<Rightarrow> real \<Rightarrow> Point \<Rightarrow> nat \<Rightarrow> int \<Rightarrow> DataRegion list \<Rightarrow> DataRegion list" where
  "generateSkillRegions_loop imageHeight scale offset skillIndex currentY skillRegions =
     (if currentY + skillHeight < imageHeight then
        let leftSkillRegion =
              \<lparr>r_name = skill_key skillIndex,
               r_x = js_round (real_of_int leftX * scale + pt_x offset),
               r_y = js_round (real_of_int currentY * scale + pt_y offset),
               r_width = js_round (real_of_int skillWidth * scale),
               r_height = js_round (real_of_int skillHeight * scale),
               r_type = Skills\<rparr>;
            rightSkillRegion =
              \<lparr>r_name = skill_key (skillIndex + 1),
               r_x = js_round (real_of_int rightX * scale + pt_x offset),
               r_y = js_round (real_of_int currentY * scale + pt_y offset),
               r_width = js_round (real_of_int skillWidth * scale),
               r_height = js_round (real_of_int skillHeight * scale),
               r_type = Skills\<rparr>
        in generateSkillRegions_loop imageHeight scale offset (skillIndex + 2)
             (currentY + skillYInterval) (skillRegions @ [leftSkillRegion, rightSkillRegion])
      else skillRegions)"
  by pat_completeness auto
termination
  by (relation "measure (\<lambda>(imageHeight, scale, offset, skillIndex, currentY, skillRegions).
        nat (imageHeight - currentY))")
     (auto simp: skillYInterval_def skillHeight_def)

declare generateSkillRegions_loop.simps [simp del]

definition generateSkillRegions :: "int \<Rightarrow> real \<Rightarrow> Point \<Rightarrow> DataRegion list" where
  "generateSkillRegions imageHeight scale offset =
     generateSkillRegions_loop imageHeight scale offset 1 startY []"

section \<open>Extraction\<close>

text \<open>
  \<^verbatim>\<open>extractedData\<close> is a JavaScript object used as a dictionary: an association list,
  assignment being \<^const>\<open>AList.update\<close> and lookup \<^const>\<open>map_of\<close>. Cropping a region
  and recognising its text (\<^verbatim>\<open>extractRegion\<close>, \<^verbatim>\<open>ocrRegion\<close>, Tesseract) is the
  function \<open>ocr\<close> of the projected region.
\<close>

type_synonym ExtractedData = "(string \<times> jstring) list"

text \<open>The bounds test the skill loop of \<^verbatim>\<open>handleFileSelect\<close> writes inline.\<close>

definition withinImage :: "int \<Rightarrow> int \<Rightarrow> DataRegion \<Rightarrow> bool" where
  "withinImage imageWidth imageHeight region =
     (r_x region \<ge> 0 \<and> r_y region \<ge> 0 \<and>
      r_x region + r_width region \<le> imageWidth \<and>
      r_y region + r_height region \<le> imageHeight)"

definition extractStaticRegions ::
  "(DataRegion \<Rightarrow> jstring) \<Rightarrow> Scales \<Rightarrow> Point \<Rightarrow> ExtractedData \<Rightarrow> ExtractedData" where
  "extractStaticRegions ocr scales offset extractedData =
     foldl (\<lambda>d region. AList.update (r_name region) (ocr (adjustRegion region scales offset)) d)
       extractedData DATA_REGIONS"

definition extractSkillRegions ::
  "(DataRegion \<Rightarrow> jstring) \<Rightarrow> int \<Rightarrow> int \<Rightarrow> DataRegion list \<Rightarrow> ExtractedData \<Rightarrow> ExtractedData" where
  "extractSkillRegions ocr imageWidth imageHeight skillRegions extractedData =
     foldl (\<lambda>d region. if withinImage imageWidth imageHeight region
                        then AList.update (r_name region) (ocr region) d else d)
       extractedData skillRegions"

definition extractData ::
  "(DataRegion \<Rightarrow> jstring) \<Rightarrow> int \<Rightarrow> int \<Rightarrow> Scales \<Rightarrow> Point \<Rightarrow> ExtractedData" where
  "extractData ocr imageWidth imageHeight scales offset =
     extractSkillRegions ocr imageWidth imageHeight
       (generateSkillRegions imageHeight (scaleY scales) offset)
       (extractStaticRegions ocr scales offset [])"

subsection \<open>Field names are distinct\<close>

lemma digitChar_inj: "a < 10 \<Longrightarrow> b < 10 \<Longrightarrow> digitChar a = digitChar b \<Longrightarrow> a = b"
proof -
  have d: "distinct ''0123456789''" by simp
  assume "a < 10" "b < 10" "digitChar a = digitChar b"
  then show ?thesis
    using d by (simp add: digitChar_def nth_eq_iff_index_eq)
qed

lemma decimal_nonempty: "decimal n \<noteq> []"
  by (subst decimal.simps) simp

lemma decimal_inj: "decimal n = decimal m \<Longrightarrow> n = m"
proof (induction n arbitrary: m rule: decimal.induct)
  case (1 n)
  show ?case
  proof (cases "n < 10")
    case n: True
    show ?thesis
    proof (cases "m < 10")
      case True
      with n "1.prems" show ?thesis
        by (simp add: decimal.simps [of n] decimal.simps [of m] digitChar_inj)
    next
      case False
      with n "1.prems" show ?thesis
        using decimal_nonempty [of "m div 10"]
        by (simp add: decimal.simps [of n] decimal.simps [of m])
    qed
  next
    case n: False
    show ?thesis
    proof (cases "m < 10")
      case True
      with n "1.prems" show ?thesis
        by (simp add: decimal.simps [of n] decimal.simps [of m] decimal_nonempty)
    next
      case False
      with n "1.prems" have e: "decimal (n div 10) = decimal (m div 10)"
        and d: "digitChar (n mod 10) = digitChar (m mod 10)"
        by (simp_all add: decimal.simps [of n] decimal.simps [of m])
      from "1.IH" [OF n e] have q: "n div 10 = m div 10" .
      from d have r: "n mod 10 = m mod 10"
        by (intro digitChar_inj) simp_all
      from q r show ?thesis
        by (metis div_mult_mod_eq)
    qed
  qed
qed

lemma skill_key_inj: "skill_key i = skill_key j \<Longrightarrow> i = j"
  by (simp add: skill_key_def decimal_inj)

lemma inj_skill_key: "inj skill_key"
  by (rule injI) (rule skill_key_inj)

lemma skill_key_not_static: "skill_key i \<notin> set (map r_name DATA_REGIONS)"
  by (simp add: skill_key_def DATA_REGIONS_def)

lemma distinct_static: "distinct (map r_name DATA_REGIONS)"
  by (simp add: DATA_REGIONS_def)

subsection \<open>The rows the generator emits\<close>

definition skillRow :: "real \<Rightarrow> Point \<Rightarrow> nat \<Rightarrow> DataRegion list" where
  "skillRow scale offset i =
     [\<lparr>r_name = skill_key (2 * i + 1),
       r_x = js_round (112 * scale + pt_x offset),
       r_y = js_round ((864 + 112 * real i) * scale + pt_y offset),
       r_width = js_round (320 * scale),
       r_height = js_round (68 * scale),
       r_type = Skills\<rparr>,
      \<lparr>r_name = skill_key (2 * i + 2),
       r_x = js_round (615 * scale + pt_x offset),
       r_y = js_round ((864 + 112 * real i) * scale + pt_y offset),
       r_width = js_round (320 * scale),
       r_height = js_round (68 * scale),
       r_type = Skills\<rparr>]"

definition rowCount :: "int \<Rightarrow> nat" where
  "rowCount imageHeight = (if 932 < imageHeight then nat ((imageHeight - 933) div 112) + 1 else 0)"

lemma le_div_112: "(j \<le> v div 112) = (112 * j \<le> (v::int))"
proof
  assume "j \<le> v div 112"
  then have "112 * j \<le> 112 * (v div 112)" by simp
  also have "\<dots> \<le> v"
    using mult_div_mod_eq [of 112 v] pos_mod_sign [of 112 v] by linarith
  finally show "112 * j \<le> v" .
next
  assume "112 * j \<le> v"
  then have "(112 * j) div 112 \<le> v div 112" by (rule zdiv_mono1) simp
  then show "j \<le> v div 112" by simp
qed

lemma rowCount_iff: "(i < rowCount h) = (932 + 112 * int i < h)"
proof (cases "932 < h")
  case True
  have a: "(int i \<le> (h - 933) div 112) = (932 + 112 * int i < h)"
    unfolding le_div_112 by linarith
  from True have b: "0 \<le> (h - 933) div 112"
    by simp
  have "(i < rowCount h) = (int i \<le> (h - 933) div 112)"
    using True b by (simp add: rowCount_def) linarith
  with a show ?thesis by simp
next
  case False
  then show ?thesis
    by (simp add: rowCount_def)
qed

lemma loop_rows:
  "generateSkillRegions_loop h scale offset (2 * a + 1) (864 + 112 * int a) acc =
     acc @ concat (map (skillRow scale offset) [a..<rowCount h])"
proof (induction "rowCount h - a" arbitrary: a acc)
  case 0
  then have "\<not> a < rowCount h" by simp
  then have "\<not> 932 + 112 * int a < h" by (simp add: rowCount_iff)
  with 0 show ?case
    by (subst generateSkillRegions_loop.simps) (simp add: skillHeight_def)
next
  case (Suc n)
  then have lt: "a < rowCount h" by simp
  then have c: "932 + 112 * int a < h" by (simp add: rowCount_iff)
  from Suc have n: "n = rowCount h - Suc a" by simp
  have "generateSkillRegions_loop h scale offset (2 * a + 1) (864 + 112 * int a) acc =
        generateSkillRegions_loop h scale offset (2 * Suc a + 1) (864 + 112 * int (Suc a))
          (acc @ skillRow scale offset a)"
    using c
    by (subst generateSkillRegions_loop.simps)
       (simp add: skillHeight_def skillRow_def skillYInterval_def leftX_def rightX_def
          skillWidth_def Let_def algebra_simps)
  also have "\<dots> = (acc @ skillRow scale offset a) @ concat (map (skillRow scale offset) [Suc a..<rowCount h])"
    by (rule Suc.hyps(1) [OF n])
  finally show ?case
    using lt by (simp add: upt_conv_Cons)
qed

lemma generateSkillRegions_rows:
  "generateSkillRegions h scale offset = concat (map (skillRow scale offset) [0..<rowCount h])"
  using loop_rows [of h scale offset 0 "[]"]
  by (simp add: generateSkillRegions_def startY_def)

lemma length_rows: "length (concat (map (skillRow scale offset) [a..<n])) = 2 * (n - a)"
  by (induction n) (simp_all add: skillRow_def Suc_diff_le)

lemma names_rows:
  "map r_name (concat (map (skillRow scale offset) [0..<n])) = map skill_key [1..<2 * n + 1]"
  by (induction n) (simp_all add: skillRow_def)

lemma distinct_skill_names:
  "distinct (map r_name (generateSkillRegions h scale offset))"
  by (simp add: generateSkillRegions_rows names_rows distinct_map inj_on_def skill_key_inj)

subsection \<open>What the two extraction loops leave in the dictionary\<close>

lemma map_of_fold_update:
  "distinct (map key rs) \<Longrightarrow>
   map_of (foldl (\<lambda>d r. if keep r then AList.update (key r) (val r) d else d) d0 rs) k =
     (case find (\<lambda>r. key r = k) rs of
        None \<Rightarrow> map_of d0 k
      | Some r \<Rightarrow> if keep r then Some (val r) else map_of d0 k)"
proof (induction rs arbitrary: d0)
  case Nil
  show ?case by simp
next
  case (Cons r rs)
  then have d: "distinct (map key rs)" and n: "key r \<notin> key ` set rs" by simp_all
  show ?case
  proof (cases "key r = k")
    case True
    with n have "find (\<lambda>r. key r = k) rs = None"
      by (auto simp: find_None_iff image_iff)
    with True Cons.IH [OF d] show ?thesis
      by (simp add: update_conv')
  next
    case False
    with Cons.IH [OF d] show ?thesis
      by (simp add: update_conv' split: option.split)
  qed
qed

lemma find_key_member:
  "distinct (map key rs) \<Longrightarrow> r \<in> set rs \<Longrightarrow> find (\<lambda>r'. key r' = key r) rs = Some r"
  by (induction rs) (auto simp: rev_image_eqI)

lemma find_key_absent:
  "k \<notin> key ` set rs \<Longrightarrow> find (\<lambda>r'. key r' = k) rs = None"
  by (auto simp: find_None_iff image_iff)

lemma static_lookup:
  "map_of (extractStaticRegions ocr scales offset []) k =
     (case find (\<lambda>r. r_name r = k) DATA_REGIONS of
        None \<Rightarrow> None
      | Some r \<Rightarrow> Some (ocr (adjustRegion r scales offset)))"
  using map_of_fold_update [of r_name DATA_REGIONS "\<lambda>r. True"
      "\<lambda>r. ocr (adjustRegion r scales offset)" "[]" k] distinct_static
  by (simp add: extractStaticRegions_def split: option.split)

lemma extractData_lookup:
  "map_of (extractData ocr w h scales offset) k =
     (case find (\<lambda>r. r_name r = k) (generateSkillRegions h (scaleY scales) offset) of
        None \<Rightarrow> map_of (extractStaticRegions ocr scales offset []) k
      | Some r \<Rightarrow> if withinImage w h r then Some (ocr r)
                  else map_of (extractStaticRegions ocr scales offset []) k)"
  using map_of_fold_update [of r_name "generateSkillRegions h (scaleY scales) offset"
      "withinImage w h" ocr "extractStaticRegions ocr scales offset []" k]
    distinct_skill_names [of h "scaleY scales" offset]
  by (simp add: extractData_def extractSkillRegions_def)

lemma skill_region_name:
  "r \<in> set (generateSkillRegions h scale offset) \<Longrightarrow> \<exists>i. r_name r = skill_key i"
  by (auto simp: generateSkillRegions_rows skillRow_def)

lemma static_not_skill:
  "r \<in> set DATA_REGIONS \<Longrightarrow> r_name r \<notin> r_name ` set (generateSkillRegions h scale offset)"
proof
  assume r: "r \<in> set DATA_REGIONS"
    and "r_name r \<in> r_name ` set (generateSkillRegions h scale offset)"
  then obtain r' where "r' \<in> set (generateSkillRegions h scale offset)" "r_name r = r_name r'"
    by auto
  with skill_region_name [of r' h scale offset] obtain i where "r_name r = skill_key i"
    by auto
  with r skill_key_not_static [of i] show False
    by (metis image_eqI image_set)
qed

lemma skill_lookup:
  assumes "r \<in> set (generateSkillRegions h (scaleY scales) offset)"
  shows "map_of (extractData ocr w h scales offset) (r_name r) =
           (if withinImage w h r then Some (ocr r) else None)"
proof -
  from skill_region_name [OF assms] obtain i where i: "r_name r = skill_key i" ..
  have "find (\<lambda>r'. r_name r' = skill_key i) DATA_REGIONS = None"
    using skill_key_not_static [of i] by (intro find_key_absent) simp
  then have s: "map_of (extractStaticRegions ocr scales offset []) (r_name r) = None"
    by (simp add: static_lookup i)
  have "find (\<lambda>r'. r_name r' = r_name r) (generateSkillRegions h (scaleY scales) offset) = Some r"
    using distinct_skill_names assms by (rule find_key_member)
  then show ?thesis
    by (simp add: extractData_lookup s)
qed

lemma static_region_lookup:
  assumes "r \<in> set DATA_REGIONS"
  shows "map_of (extractData ocr w h scales offset) (r_name r) =
           Some (ocr (adjustRegion r scales offset))"
proof -
  have "find (\<lambda>r'. r_name r' = r_name r) (generateSkillRegions h (scaleY scales) offset) = None"
    using static_not_skill [OF assms] by (rule find_key_absent)
  moreover have "find (\<lambda>r'. r_name r' = r_name r) DATA_REGIONS = Some r"
    using distinct_static assms by (rule find_key_member)
  ultimately show ?thesis
    by (simp add: extractData_lookup static_lookup)
qed

section \<open>Field parsing\<close>

text \<open>Character classes of the regular expressions, on UTF-16 code units.\<close>

definition isDigit :: "nat \<Rightarrow> bool" where
  "isDigit c = (48 \<le> c \<and> c \<le> 57)"

definition isUpper :: "nat \<Rightarrow> bool" where
  "isUpper c = (65 \<le> c \<and> c \<le> 90)"

text \<open>
  White space as \<^verbatim>\<open>String.prototype.trim\<close> and the class \<^verbatim>\<open>\s\<close> have it: TAB, LF,
  VT, FF, CR, SP, NBSP, U+1680, U+2000 to U+200A, LS, PS, U+202F, U+205F, U+3000 and
  the byte order mark.
\<close>

definition isSpace :: "nat \<Rightarrow> bool" where
  "isSpace c = (c = 9 \<or> c = 10 \<or> c = 11 \<or> c = 12 \<or> c = 13 \<or> c = 32 \<or> c = 160 \<or>
     c = 5760 \<or> (8192 \<le> c \<and> c \<le> 8202) \<or> c = 8232 \<or> c = 8233 \<or> c = 8239 \<or>
     c = 8287 \<or> c = 12288 \<or> c = 65279)"

definition trim :: "jstring \<Rightarrow> jstring" where
  "trim s = rev (dropWhile isSpace (rev (dropWhile isSpace s)))"

text \<open>
  \<^verbatim>\<open>text.match(/(\d{3,4})/)\<close>: the leftmost position where at least three digits
  start; the quantifier is greedy and takes a fourth digit when there is one.
\<close>

fun matchDigits :: "jstring \<Rightarrow> jstring option" where
  "matchDigits [] = None"
| "matchDigits (c # cs) =
     (if length (takeWhile isDigit (c # cs)) \<ge> 3 then Some (take 4 (takeWhile isDigit (c # cs)))
      else matchDigits cs)"

text \<open>\<^verbatim>\<open>parseInt\<close> on a string of decimal digits.\<close>

definition parseInt :: "jstring \<Rightarrow> nat" where
  "parseInt ds = foldl (\<lambda>a c. 10 * a + (c - 48)) 0 ds"

definition parseStat :: "jstring \<Rightarrow> nat" where
  "parseStat text = (case matchDigits text of Some m \<Rightarrow> parseInt m | None \<Rightarrow> 0)"

text \<open>\<^verbatim>\<open>text.match(/([A-Z])/)\<close>: the first upper-case ASCII letter.\<close>

definition parseAptitude :: "jstring \<Rightarrow> jstring" where
  "parseAptitude text = (case find isUpper text of Some c \<Rightarrow> [c] | None \<Rightarrow> js ''G'')"

record Stats =
  s_speed :: nat
  s_stamina :: nat
  s_power :: nat
  s_guts :: nat
  s_wisdom :: nat

record TrackAptitudes =
  a_turf :: jstring
  a_dirt :: jstring

record DistanceAptitudes =
  a_sprint :: jstring
  a_mile :: jstring
  a_medium :: jstring
  a_long :: jstring

record StyleAptitudes =
  a_front :: jstring
  a_pace :: jstring
  a_late :: jstring
  a_end :: jstring

record Aptitudes =
  a_track :: TrackAptitudes
  a_distance :: DistanceAptitudes
  a_style :: StyleAptitudes

record ParsedUmaData =
  p_outfit :: jstring
  p_name :: jstring
  p_stats :: Stats
  p_aptitudes :: Aptitudes
  p_skills :: "jstring list"

text \<open>
  The loop of \<^verbatim>\<open>parseExtractedData\<close> that collects the skill texts: it runs while
  \<^verbatim>\<open>data[`skill_${skillIndex}`]\<close> is defined. It ends because the dictionary is
  finite and the names \<open>skill_1\<close>, \<open>skill_2\<close>, ... are all different.
\<close>

function collectSkills :: "ExtractedData \<Rightarrow> nat \<Rightarrow> jstring list \<Rightarrow> jstring list" where
  "collectSkills data skillIndex skills =
     (case map_of data (skill_key skillIndex) of
        None \<Rightarrow> skills
      | Some skillText \<Rightarrow>
          collectSkills data (skillIndex + 1)
            (if skillText \<noteq> [] \<and> trim skillText \<noteq> [] then skills @ [trim skillText]
             else skills))"
  by pat_completeness auto
termination
proof (relation "measure (\<lambda>(data, skillIndex, skills).
          card {j. skillIndex \<le> j \<and> skill_key j \<in> fst ` set data})")
  show "wf (measure (\<lambda>(data, skillIndex, skills).
          card {j. skillIndex \<le> j \<and> skill_key j \<in> fst ` set data}))"
    by simp
next
  fix data :: ExtractedData and skillIndex :: nat and skills :: "jstring list" and x2
  assume "map_of data (skill_key skillIndex) = Some x2"
  then have mem: "skill_key skillIndex \<in> fst ` set data"
    by (metis map_of_eq_None_iff option.distinct(1))
  have "finite (skill_key -` (fst ` set data))"
    by (intro finite_vimageI inj_skill_key) simp
  then have fin: "finite {j. skillIndex \<le> j \<and> skill_key j \<in> fst ` set data}"
    by (rule rev_finite_subset) auto
  have "skillIndex \<in> {j. skillIndex \<le> j \<and> skill_key j \<in> fst ` set data}"
    using mem by simp
  moreover have "skillIndex \<notin> {j. skillIndex + 1 \<le> j \<and> skill_key j \<in> fst ` set data}"
    by simp
  moreover have "{j. skillIndex + 1 \<le> j \<and> skill_key j \<in> fst ` set data}
        \<subseteq> {j. skillIndex \<le> j \<and> skill_key j \<in> fst ` set data}"
    by auto
  ultimately have "{j. skillIndex + 1 \<le> j \<and> skill_key j \<in> fst ` set data}
        \<subset> {j. skillIndex \<le> j \<and> skill_key j \<in> fst ` set data}"
    by blast
  with fin have "card {j. skillIndex + 1 \<le> j \<and> skill_key j \<in> fst ` set data}
        < card {j. skillIndex \<le> j \<and> skill_key j \<in> fst ` set data}"
    by (rule psubset_card_mono)
  then show "((data, skillIndex + 1,
               if x2 \<noteq> [] \<and> trim x2 \<noteq> [] then skills @ [trim x2] else skills),
              data, skillIndex, skills)
             \<in> measure (\<lambda>(data, skillIndex, skills).
                  card {j. skillIndex \<le> j \<and> skill_key j \<in> fst ` set data})"
    by simp
qed

declare collectSkills.simps [simp del]

text \<open>
  \<^verbatim>\<open>parseStat\<close> and \<^verbatim>\<open>parseAptitude\<close> call \<^verbatim>\<open>text.match\<close>; on a field that is
  absent from the dictionary the argument is \<^verbatim>\<open>undefined\<close> and the call throws a
  \<^verbatim>\<open>TypeError\<close>.
\<close>

datatype exn = TypeError

definition field :: "ExtractedData \<Rightarrow> string \<Rightarrow> exn + jstring" where
  "field data key = (case map_of data key of None \<Rightarrow> Inl TypeError | Some text \<Rightarrow> Inr text)"

definition bindE :: "'e + 'a \<Rightarrow> ('a \<Rightarrow> 'e + 'b) \<Rightarrow> 'e + 'b" where
  "bindE m f = (case m of Inl e \<Rightarrow> Inl e | Inr v \<Rightarrow> f v)"

text \<open>\<^verbatim>\<open>data.key || fallback\<close>: the fallback replaces an absent or an empty text.\<close>

definition orElse :: "jstring option \<Rightarrow> jstring \<Rightarrow> jstring" where
  "orElse v fallback = (case v of None \<Rightarrow> fallback | Some t \<Rightarrow> if t = [] then fallback else t)"

definition parseExtractedData :: "ExtractedData \<Rightarrow> exn + ParsedUmaData" where
  "parseExtractedData data =
     (let outfit = orElse (map_of data ''uma_outfit'') [];
          name = orElse (map_of data ''uma_name'') (js ''Unknown Uma'')
      in
      bindE (field data ''speed'') (\<lambda>speed.
      bindE (field data ''stamina'') (\<lambda>stamina.
      bindE (field data ''power'') (\<lambda>power.
      bindE (field data ''guts'') (\<lambda>guts.
      bindE (field data ''wit'') (\<lambda>wit.
      bindE (field data ''turf_aptitude'') (\<lambda>turf.
      bindE (field data ''dirt_aptitude'') (\<lambda>dirt.
      bindE (field data ''sprint_aptitude'') (\<lambda>sprint.
      bindE (field data ''mile_aptitude'') (\<lambda>mile.
      bindE (field data ''medium_aptitude'') (\<lambda>medium.
      bindE (field data ''long_aptitude'') (\<lambda>long.
      bindE (field data ''front_aptitude'') (\<lambda>front.
      bindE (field data ''pace_aptitude'') (\<lambda>pace.
      bindE (field data ''late_aptitude'') (\<lambda>late.
      bindE (field data ''end_aptitude'') (\<lambda>end_apt.
        Inr \<lparr>p_outfit = outfit,
             p_name = name,
             p_stats = \<lparr>s_speed = parseStat speed, s_stamina = parseStat stamina,
                         s_power = parseStat power, s_guts = parseStat guts,
                         s_wisdom = parseStat wit\<rparr>,
             p_aptitudes =
               \<lparr>a_track = \<lparr>a_turf = parseAptitude turf, a_dirt = parseAptitude dirt\<rparr>,
                a_distance = \<lparr>a_sprint = parseAptitude sprint, a_mile = parseAptitude mile,
                              a_medium = parseAptitude medium, a_long = parseAptitude long\<rparr>,
                a_style = \<lparr>a_front = parseAptitude front, a_pace = parseAptitude pace,
                           a_late = parseAptitude late, a_end = parseAptitude end_apt\<rparr>\<rparr>,
             p_skills = collectSkills data 1 []\<rparr>))))))))))))))))"

section \<open>The run\<close>

text \<open>
  \<^verbatim>\<open>handleFileSelect\<close> from the template search on. It ends in one of the two
  callbacks: \<^verbatim>\<open>onError\<close>, with the message about template matches or with the
  \<^verbatim>\<open>catch\<close> block's message, or \<^verbatim>\<open>onDataParsed\<close>.
\<close>

datatype ErrorMessage = CouldNotFindTemplateMatches | FailedToProcessImage

datatype Outcome = OnError ErrorMessage | OnDataParsed ParsedUmaData

definition handleFileSelect ::
  "int \<Rightarrow> int \<Rightarrow> Template \<Rightarrow> Template \<Rightarrow> (DataRegion \<Rightarrow> jstring) \<Rightarrow> Outcome" where
  "handleFileSelect imageWidth imageHeight changeTemplate headersTemplate ocr =
     (case (findBestTemplateMatch imageWidth imageHeight changeTemplate,
            findBestTemplateMatch imageWidth imageHeight headersTemplate) of
        (Some changeMatch, Some headersMatch) \<Rightarrow>
          (let scales = calculateScales changeMatch headersMatch;
               offset = calculateOffset changeMatch headersMatch scales;
               extractedData = extractData ocr imageWidth imageHeight scales offset
           in case parseExtractedData extractedData of
                Inl e \<Rightarrow> OnError FailedToProcessImage
              | Inr parsedData \<Rightarrow> OnDataParsed parsedData)
      | _ \<Rightarrow> OnError CouldNotFindTemplateMatches)"

section \<open>Skill resolver\<close>

text \<open>
  The catalog \<^verbatim>\<open>skillnames\<close> is loaded from a JSON file that is not part of the
  sources; the model takes it as the list of its entries (identifier, display names) in
  the order \<^verbatim>\<open>Object.entries\<close> enumerates them. \<^verbatim>\<open>String.prototype.toLowerCase\<close>
  is the runtime's Unicode case mapping and is a parameter as well.
\<close>

type_synonym SkillNames = "(jstring \<times> jstring list) list"

text \<open>The class \<^verbatim>\<open>\w\<close>: ASCII letters, digits and the underscore.\<close>

definition isWord :: "nat \<Rightarrow> bool" where
  "isWord c = ((48 \<le> c \<and> c \<le> 57) \<or> (65 \<le> c \<and> c \<le> 90) \<or> c = 95 \<or> (97 \<le> c \<and> c \<le> 122))"

text \<open>\<^verbatim>\<open>s.toLowerCase().replace(/[^\w\s]/g, '').trim()\<close>\<close>

definition normalizeString :: "(jstring \<Rightarrow> jstring) \<Rightarrow> jstring \<Rightarrow> jstring" where
  "normalizeString toLowerCase s = trim (filter (\<lambda>c. isWord c \<or> isSpace c) (toLowerCase s))"

text \<open>
  \<^verbatim>\<open>s.includes(sub)\<close>: \<open>sub\<close> occurs in \<open>s\<close> as a contiguous substring
  (\<open>includes\<close> is a keyword of Isabelle, hence the prefix).
\<close>

fun js_includes :: "jstring \<Rightarrow> jstring \<Rightarrow> bool" where
  "js_includes [] sub = (sub = [])"
| "js_includes (c # cs) sub = (take (length sub) (c # cs) = sub \<or> js_includes cs sub)"

text \<open>
  One row of the matrix of \<^verbatim>\<open>levenshteinDistance\<close>: \<open>levRow c2 str1 prev left\<close> fills
  the cells \<open>matrix[i][j]\<close> for the characters of \<open>str1\<close> that remain, where \<open>c2\<close> is
  \<open>str2.charAt(i - 1)\<close>, \<open>prev\<close> is the previous row from column \<open>j - 1\<close> on and \<open>left\<close>
  is \<open>matrix[i][j - 1]\<close>.
\<close>

fun levRow :: "nat \<Rightarrow> jstring \<Rightarrow> nat list \<Rightarrow> nat \<Rightarrow> nat list" where
  "levRow c2 (c1 # cs) (diag # up # prev) left =
     (let cell = (if c2 = c1 then diag else min (diag + 1) (min (left + 1) (up + 1)))
      in cell # levRow c2 cs (up # prev) cell)"
| "levRow c2 cs prev left = []"

definition levenshteinDistance :: "jstring \<Rightarrow> jstring \<Rightarrow> nat" where
  "levenshteinDistance str1 str2 =
     last (foldl (\<lambda>prev (i, c2). i # levRow c2 str1 prev i)
             [0..<length str1 + 1]
             (zip [1..<length str2 + 1] str2))"

definition calculateSimilarity :: "jstring \<Rightarrow> jstring \<Rightarrow> real" where
  "calculateSimilarity str1 str2 =
     (let longer = (if length str1 > length str2 then str1 else str2);
          shorter = (if length str1 > length str2 then str2 else str1)
      in if length longer = 0 then 1
         else (let distance = levenshteinDistance longer shorter
               in (real (length longer) - real distance) / real (length longer)))"

definition fuzzyMatch :: "(jstring \<Rightarrow> jstring) \<Rightarrow> jstring \<Rightarrow> jstring \<Rightarrow> bool" where
  "fuzzyMatch toLowerCase str1 str2 =
     (let n1 = normalizeString toLowerCase str1;
          n2 = normalizeString toLowerCase str2
      in js_includes n1 n2 \<or> js_includes n2 n1 \<or> calculateSimilarity n1 n2 > 7 / 10)"

text \<open>
  The tier glyphs, as code units: U+25CE, U+25CB, U+00D7, and the three glyphs that
  recognition confuses with the circles, U+00A9, U+00AE and U+2122. A tier symbol is a
  one-character string; the model keeps its code unit.
\<close>

definition DoubleCircle :: nat where "DoubleCircle = 9678"
definition Circle :: nat where "Circle = 9675"
definition Cross :: nat where "Cross = 215"
definition Copyright :: nat where "Copyright = 169"
definition Registered :: nat where "Registered = 174"
definition Trademark :: nat where "Trademark = 8482"

text \<open>The character class of \<^verbatim>\<open>extractTierSymbol\<close>.\<close>

definition isTierGlyph :: "nat \<Rightarrow> bool" where
  "isTierGlyph c = (c = DoubleCircle \<or> c = Circle \<or> c = Cross \<or> c = Copyright \<or>
     c = Registered \<or> c = Trademark)"

definition endsWith :: "jstring \<Rightarrow> jstring \<Rightarrow> bool" where
  "endsWith s suffix = (length suffix \<le> length s \<and> drop (length s - length suffix) s = suffix)"

definition extractTierSymbol :: "jstring \<Rightarrow> nat option" where
  "extractTierSymbol text =
     (case find isTierGlyph text of
        Some tierMatch \<Rightarrow> Some tierMatch
      | None \<Rightarrow>
          if endsWith (trim text) (js '' O'') then Some Circle
          else if Copyright \<in> set text then Some Copyright
          else None)"

definition tierMap :: "(nat \<times> nat list) list" where
  "tierMap =
     [(DoubleCircle, [Circle, Copyright, Registered, Trademark]),
      (Circle, [DoubleCircle, Copyright, Registered, Trademark]),
      (Cross, [Cross]),
      (Copyright, [DoubleCircle, Circle]),
      (Registered, [DoubleCircle, Circle]),
      (Trademark, [DoubleCircle, Circle])]"

definition isTierCompatible :: "nat \<Rightarrow> nat \<Rightarrow> bool" where
  "isTierCompatible skillTier parsedTier =
     (case map_of tierMap skillTier of
        Some tiers \<Rightarrow> parsedTier \<in> set tiers
      | None \<Rightarrow> False)"

definition hasTierVariants :: "jstring \<Rightarrow> bool" where
  "hasTierVariants skillName =
     (DoubleCircle \<in> set skillName \<or> Circle \<in> set skillName \<or> Cross \<in> set skillName)"

definition applyTierMatchingBonus :: "jstring \<Rightarrow> jstring \<Rightarrow> real \<Rightarrow> real" where
  "applyTierMatchingBonus skillName parsedSkill baseSimilarity =
     (if \<not> hasTierVariants skillName then baseSimilarity
      else case (extractTierSymbol skillName, extractTierSymbol parsedSkill) of
             (Some skillTier, Some parsedTier) \<Rightarrow>
               if skillTier = parsedTier then baseSimilarity + 5 / 10
               else if isTierCompatible skillTier parsedTier
               then min 1 (baseSimilarity + 3 / 10)
               else max 0 (baseSimilarity - 2 / 10)
           | _ \<Rightarrow> baseSimilarity)"

text \<open>\<^verbatim>\<open>skillId.startsWith('10')\<close>\<close>

definition startsWith10 :: "jstring \<Rightarrow> bool" where
  "startsWith10 skillId = (take 2 skillId = js ''10'')"

text \<open>
  The body of the inner loop of \<^verbatim>\<open>findMatchingSkill\<close> for one display name, and the
  body of the outer loop for one catalog entry, on the pair of variables
  (\<^verbatim>\<open>bestMatch\<close>, \<^verbatim>\<open>bestSimilarity\<close>).
\<close>

definition considerName ::
  "(jstring \<Rightarrow> jstring) \<Rightarrow> jstring \<Rightarrow> jstring \<Rightarrow> jstring option \<times> real \<Rightarrow> jstring
     \<Rightarrow> jstring option \<times> real" where
  "considerName toLowerCase skillName skillId best name =
     (if fuzzyMatch toLowerCase name skillName then
        let similarity = applyTierMatchingBonus name skillName
              (calculateSimilarity (normalizeString toLowerCase name)
                 (normalizeString toLowerCase skillName))
        in if similarity > snd best then (Some skillId, similarity) else best
      else best)"

definition considerEntry ::
  "(jstring \<Rightarrow> jstring) \<Rightarrow> jstring \<Rightarrow> bool \<Rightarrow> jstring option \<times> real \<Rightarrow> jstring \<times> jstring list
     \<Rightarrow> jstring option \<times> real" where
  "considerEntry toLowerCase skillName isUniqueSkill best entry =
     (case entry of (skillId, skillNames) \<Rightarrow>
        if isUniqueSkill then
          (if \<not> startsWith10 skillId then best
           else foldl (considerName toLowerCase skillName skillId) best skillNames)
        else
          (if startsWith10 skillId then best
           else foldl (considerName toLowerCase skillName skillId) best skillNames))"

definition findMatchingSkill ::
  "(jstring \<Rightarrow> jstring) \<Rightarrow> SkillNames \<Rightarrow> jstring \<Rightarrow> bool \<Rightarrow> jstring option" where
  "findMatchingSkill toLowerCase skillnames skillName isUniqueSkill =
     (case foldl (considerEntry toLowerCase skillName isUniqueSkill) (None, 0) skillnames of
        (bestId, bestSimilarity) \<Rightarrow> if bestSimilarity > 6 / 10 then bestId else None)"

text \<open>
  The loop of \<^verbatim>\<open>findMatchingSkills\<close> from index \<open>i\<close> on. A blank line is skipped; an
  identifier is pushed when it is truthy, that is neither \<^verbatim>\<open>null\<close> nor empty.
\<close>

fun findMatchingSkills_loop ::
  "(jstring \<Rightarrow> jstring) \<Rightarrow> SkillNames \<Rightarrow> nat \<Rightarrow> jstring list \<Rightarrow> jstring list \<Rightarrow> jstring list" where
  "findMatchingSkills_loop toLowerCase skillnames i [] matchedSkills = matchedSkills"
| "findMatchingSkills_loop toLowerCase skillnames i (parsedSkill # rest) matchedSkills =
     (if parsedSkill = [] \<or> trim parsedSkill = []
      then findMatchingSkills_loop toLowerCase skillnames (i + 1) rest matchedSkills
      else let isUniqueSkill = (i = 0)
           in case findMatchingSkill toLowerCase skillnames parsedSkill isUniqueSkill of
                Some skillId \<Rightarrow>
                  if skillId \<noteq> []
                  then findMatchingSkills_loop toLowerCase skillnames (i + 1) rest
                         (matchedSkills @ [skillId])
                  else findMatchingSkills_loop toLowerCase skillnames (i + 1) rest matchedSkills
              | None \<Rightarrow> findMatchingSkills_loop toLowerCase skillnames (i + 1) rest matchedSkills)"

definition findMatchingSkills ::
  "(jstring \<Rightarrow> jstring) \<Rightarrow> SkillNames \<Rightarrow> jstring list \<Rightarrow> jstring list" where
  "findMatchingSkills toLowerCase skillnames parsedSkills =
     findMatchingSkills_loop toLowerCase skillnames 0 parsedSkills []"

text \<open>Lower-casing of ASCII letters, for examples.\<close>

definition asciiLower :: "jstring \<Rightarrow> jstring" where
  "asciiLower s = map (\<lambda>c. if isUpper c then c + 32 else c) s"

section \<open>Calibration transform (C2)\<close>











section \<open>Skill-region generation (C4)\<close>

text \<open>
  C4. The generator emits the rows \<open>0, 1, ...\<close> in order, each as its left and its
  right region (\<^const>\<open>skillRow\<close>), starting at reference row 864 and advancing by
  112. But its loop test compares the bottom edge of a row in reference coordinates,
  \<open>864 + 112 i + 68\<close>, with the height of the source image, strictly, where the
  comment on the loop and the bounds test of the caller speak of the bounds of the
  image: scale and offset play no part in the test. At scale 1/2 in an image
  1000 pixels high only the first row is generated, although the left region of the
  second row, which the loop builds as soon as the image is 1045 pixels high, ends at
  row 522 and lies inside the image. At scale 1 an image 932 pixels high holds the
  first row exactly, and nothing is generated.
\<close>

theorem skill_region_generation:
  "generateSkillRegions h scale offset = concat (map (skillRow scale offset) [0..<rowCount h])
   \<and> length (generateSkillRegions h scale offset) = 2 * rowCount h
   \<and> (\<forall>i. (i < rowCount h) = (864 + 112 * int i + 68 < h))
   \<and> map r_name (generateSkillRegions 1000 (1 / 2) \<lparr>pt_x = 0, pt_y = 0\<rparr>) = [''skill_1'', ''skill_2'']
   \<and> generateSkillRegions 1045 (1 / 2) \<lparr>pt_x = 0, pt_y = 0\<rparr> ! 2 =
       \<lparr>r_name = ''skill_3'', r_x = 56, r_y = 488, r_width = 160, r_height = 34, r_type = Skills\<rparr>
   \<and> withinImage 1080 1000
       \<lparr>r_name = ''skill_3'', r_x = 56, r_y = 488, r_width = 160, r_height = 34, r_type = Skills\<rparr>
   \<and> generateSkillRegions 932 1 \<lparr>pt_x = 0, pt_y = 0\<rparr> = []
   \<and> generateSkillRegions 933 1 \<lparr>pt_x = 0, pt_y = 0\<rparr> ! 0 =
       \<lparr>r_name = ''skill_1'', r_x = 112, r_y = 864, r_width = 320, r_height = 68, r_type = Skills\<rparr>
   \<and> withinImage 1080 932
       \<lparr>r_name = ''skill_1'', r_x = 112, r_y = 864, r_width = 320, r_height = 68, r_type = Skills\<rparr>"
proof -
  have len: "length (generateSkillRegions h scale offset) = 2 * rowCount h"
    by (simp add: generateSkillRegions_rows length_rows)
  have iff: "\<forall>i. (i < rowCount h) = (864 + 112 * int i + 68 < h)"
    by (simp add: rowCount_iff)
  have a: "map r_name (generateSkillRegions 1000 (1 / 2) \<lparr>pt_x = 0, pt_y = 0\<rparr>) = [''skill_1'', ''skill_2'']"
    by (simp add: generateSkillRegions_def generateSkillRegions_loop.simps startY_def
        skillHeight_def skillYInterval_def skill_key_def decimal.simps digitChar_def Let_def)
  have b: "generateSkillRegions 1045 (1 / 2) \<lparr>pt_x = 0, pt_y = 0\<rparr> ! 2 =
       \<lparr>r_name = ''skill_3'', r_x = 56, r_y = 488, r_width = 160, r_height = 34, r_type = Skills\<rparr>"
    by (simp add: generateSkillRegions_def generateSkillRegions_loop.simps startY_def
        skillHeight_def skillYInterval_def skillWidth_def leftX_def rightX_def js_round_def
        skill_key_def decimal.simps digitChar_def Let_def)
  have c: "withinImage 1080 1000
       \<lparr>r_name = ''skill_3'', r_x = 56, r_y = 488, r_width = 160, r_height = 34, r_type = Skills\<rparr>"
    by (simp add: withinImage_def)
  have d: "generateSkillRegions 932 1 \<lparr>pt_x = 0, pt_y = 0\<rparr> = []"
    by (simp add: generateSkillRegions_def generateSkillRegions_loop.simps startY_def skillHeight_def)
  have e: "generateSkillRegions 933 1 \<lparr>pt_x = 0, pt_y = 0\<rparr> ! 0 =
       \<lparr>r_name = ''skill_1'', r_x = 112, r_y = 864, r_width = 320, r_height = 68, r_type = Skills\<rparr>"
    by (simp add: generateSkillRegions_def generateSkillRegions_loop.simps startY_def
        skillHeight_def skillYInterval_def skillWidth_def leftX_def rightX_def js_round_def
        skill_key_def decimal.simps digitChar_def Let_def)
  have f: "withinImage 1080 932
       \<lparr>r_name = ''skill_1'', r_x = 112, r_y = 864, r_width = 320, r_height = 68, r_type = Skills\<rparr>"
    by (simp add: withinImage_def)
  from generateSkillRegions_rows [of h scale offset] len iff a b c d e f show ?thesis
    by (intro conjI)
qed

section \<open>Out-of-bounds regions (C3)\<close>

text \<open>
  C3, as the code has it. A generated skill region is in the extracted-field set exactly
  when its projected rectangle lies inside the image (\<open>x \<ge> 0\<close>, \<open>y \<ge> 0\<close>,
  \<open>x + width \<le> imageWidth\<close>, \<open>y + height \<le> imageHeight\<close>); one that does not is left
  out, and nothing is raised. A region of the static catalog is extracted whatever its
  projected bounds are: the loop over \<^verbatim>\<open>DATA_REGIONS\<close> has no bounds test.
\<close>

theorem region_bounds_filter:
  "(\<forall>r \<in> set (generateSkillRegions h (scaleY scales) offset).
      map_of (extractData ocr w h scales offset) (r_name r) =
        (if withinImage w h r then Some (ocr r) else None))
   \<and> (\<forall>r \<in> set DATA_REGIONS.
      map_of (extractData ocr w h scales offset) (r_name r) =
        Some (ocr (adjustRegion r scales offset)))"
  by (simp add: skill_lookup static_region_lookup)

text \<open>
  The theorem in an image 900 wide and 1000 high at scale 1: the left region of the
  first skill row fits and is extracted, the right one ends at column 935 and is left
  out.
\<close>

theorem region_bounds_filter_witness:
  "map_of (extractData (\<lambda>r. js (r_name r)) 900 1000 \<lparr>scaleX = 1, scaleY = 1\<rparr> \<lparr>pt_x = 0, pt_y = 0\<rparr>)
      ''skill_1'' = Some (js ''skill_1'')
   \<and> map_of (extractData (\<lambda>r. js (r_name r)) 900 1000 \<lparr>scaleX = 1, scaleY = 1\<rparr> \<lparr>pt_x = 0, pt_y = 0\<rparr>)
      ''skill_2'' = None
   \<and> map_of (extractData (\<lambda>r. js (r_name r)) 900 1000 \<lparr>scaleX = 1, scaleY = 1\<rparr> \<lparr>pt_x = 0, pt_y = 0\<rparr>)
      ''speed'' = Some (js ''speed'')"
proof -
  let ?left = "\<lparr>r_name = ''skill_1'', r_x = 112, r_y = 864, r_width = 320, r_height = 68, r_type = Skills\<rparr>"
  let ?right = "\<lparr>r_name = ''skill_2'', r_x = 615, r_y = 864, r_width = 320, r_height = 68, r_type = Skills\<rparr>"
  let ?speed = "\<lparr>r_name = ''speed'', r_x = 118, r_y = 453, r_width = 106, r_height = 56, r_type = Stats\<rparr>"
  have g: "generateSkillRegions 1000 (scaleY \<lparr>scaleX = 1, scaleY = 1\<rparr>) \<lparr>pt_x = 0, pt_y = 0\<rparr> = [?left, ?right]"
    by (simp add: generateSkillRegions_def generateSkillRegions_loop.simps startY_def
        skillHeight_def skillYInterval_def skillWidth_def leftX_def rightX_def js_round_def
        skill_key_def decimal.simps digitChar_def Let_def)
  have s: "?speed \<in> set DATA_REGIONS"
    by (simp add: DATA_REGIONS_def)
  note t = region_bounds_filter [of 1000 "\<lparr>scaleX = 1, scaleY = 1\<rparr>" "\<lparr>pt_x = 0, pt_y = 0\<rparr>"
      "\<lambda>r. js (r_name r)" 900]
  from t g have "map_of (extractData (\<lambda>r. js (r_name r)) 900 1000 \<lparr>scaleX = 1, scaleY = 1\<rparr> \<lparr>pt_x = 0, pt_y = 0\<rparr>)
      (r_name ?left) = (if withinImage 900 1000 ?left then Some (js (r_name ?left)) else None)"
    by simp
  moreover from t g have "map_of (extractData (\<lambda>r. js (r_name r)) 900 1000 \<lparr>scaleX = 1, scaleY = 1\<rparr> \<lparr>pt_x = 0, pt_y = 0\<rparr>)
      (r_name ?right) = (if withinImage 900 1000 ?right then Some (js (r_name ?right)) else None)"
    by simp
  moreover from t s have "map_of (extractData (\<lambda>r. js (r_name r)) 900 1000 \<lparr>scaleX = 1, scaleY = 1\<rparr> \<lparr>pt_x = 0, pt_y = 0\<rparr>)
      (r_name ?speed) = Some (js (r_name (adjustRegion ?speed \<lparr>scaleX = 1, scaleY = 1\<rparr> \<lparr>pt_x = 0, pt_y = 0\<rparr>)))"
    by blast
  ultimately show ?thesis
    by (simp add: withinImage_def adjustRegion_def)
qed

text \<open>
  C3 as stated fails for the static catalog. In an image of 100 by 100 pixels at scale 1
  the region \<open>speed\<close> projects to the rectangle at (118, 453), outside the image, and
  its field is in the extracted set all the same.
\<close>

theorem region_bounds_filter_counterexample:
  "\<not> withinImage 100 100
       (adjustRegion \<lparr>r_name = ''speed'', r_x = 118, r_y = 453, r_width = 106, r_height = 56, r_type = Stats\<rparr>
          \<lparr>scaleX = 1, scaleY = 1\<rparr> \<lparr>pt_x = 0, pt_y = 0\<rparr>)
   \<and> map_of (extractData (\<lambda>r. js ''1200'') 100 100 \<lparr>scaleX = 1, scaleY = 1\<rparr> \<lparr>pt_x = 0, pt_y = 0\<rparr>)
        ''speed'' = Some (js ''1200'')"
  by (simp add: withinImage_def adjustRegion_def js_round_def extractData_def
      extractSkillRegions_def extractStaticRegions_def DATA_REGIONS_def
      generateSkillRegions_def generateSkillRegions_loop.simps startY_def skillHeight_def)

subsection \<open>The first run of digits\<close>

text \<open>A run of three digits starts at position \<open>n\<close> of the text.\<close>

definition digitsAt :: "jstring \<Rightarrow> nat \<Rightarrow> bool" where
  "digitsAt text n = (n + 3 \<le> length text \<and> list_all isDigit (take 3 (drop n text)))"

lemma takeWhile_ge3:
  "(3 \<le> length (takeWhile P xs)) = (3 \<le> length xs \<and> list_all P (take 3 xs))"
proof (cases xs)
  case Nil
  then show ?thesis by simp
next
  case a: (Cons a as)
  show ?thesis
  proof (cases as)
    case Nil
    with a show ?thesis by simp
  next
    case b: (Cons b bs)
    show ?thesis
    proof (cases bs)
      case Nil
      with a b show ?thesis by simp
    next
      case (Cons c cs)
      with a b show ?thesis by simp
    qed
  qed
qed

lemma digitsAt_0: "digitsAt text 0 = (3 \<le> length (takeWhile isDigit text))"
  by (simp add: digitsAt_def takeWhile_ge3)

lemma digitsAt_Suc: "digitsAt (c # cs) (Suc n) = digitsAt cs n"
  by (auto simp: digitsAt_def)

lemma matchDigits_None: "(matchDigits s = None) = (\<forall>n. \<not> digitsAt s n)"
proof (induction s)
  case Nil
  show ?case by (simp add: digitsAt_def)
next
  case (Cons c cs)
  show ?case
  proof (cases "3 \<le> length (takeWhile isDigit (c # cs))")
    case True
    then have "digitsAt (c # cs) 0" using digitsAt_0 [of "c # cs"] by blast
    with True show ?thesis by auto
  next
    case False
    then have z: "\<not> digitsAt (c # cs) 0" using digitsAt_0 [of "c # cs"] by blast
    have "(\<forall>n. \<not> digitsAt (c # cs) n) = (\<forall>n. \<not> digitsAt cs n)"
    proof
      assume "\<forall>n. \<not> digitsAt (c # cs) n"
      then show "\<forall>n. \<not> digitsAt cs n" using digitsAt_Suc [of c cs] by blast
    next
      assume a: "\<forall>n. \<not> digitsAt cs n"
      show "\<forall>n. \<not> digitsAt (c # cs) n"
      proof
        fix n show "\<not> digitsAt (c # cs) n"
          using z a digitsAt_Suc [of c cs] by (cases n) simp_all
      qed
    qed
    with False Cons.IH show ?thesis by simp
  qed
qed

lemma matchDigits_Some:
  "matchDigits s = Some m \<Longrightarrow>
     \<exists>n. digitsAt s n \<and> (\<forall>k < n. \<not> digitsAt s k)
       \<and> m = take 4 (takeWhile isDigit (drop n s))"
proof (induction s)
  case Nil
  then show ?case by simp
next
  case (Cons c cs)
  show ?case
  proof (cases "3 \<le> length (takeWhile isDigit (c # cs))")
    case True
    then have "digitsAt (c # cs) 0" using digitsAt_0 [of "c # cs"] by blast
    moreover from True Cons.prems have "m = take 4 (takeWhile isDigit (drop 0 (c # cs)))"
      by simp
    ultimately show ?thesis by blast
  next
    case False
    then have z: "\<not> digitsAt (c # cs) 0" using digitsAt_0 [of "c # cs"] by blast
    from False Cons.prems have "matchDigits cs = Some m" by simp
    from Cons.IH [OF this] obtain n where n: "digitsAt cs n" "\<forall>k < n. \<not> digitsAt cs k"
      "m = take 4 (takeWhile isDigit (drop n cs))" by blast
    have "\<forall>k < Suc n. \<not> digitsAt (c # cs) k"
    proof (intro allI impI)
      fix k assume "k < Suc n"
      then show "\<not> digitsAt (c # cs) k"
        using z n(2) by (cases k) (simp_all add: digitsAt_Suc)
    qed
    with n show ?thesis
      by (intro exI [of _ "Suc n"]) (simp add: digitsAt_Suc)
  qed
qed

lemma matched_shape:
  assumes "digitsAt text n" and "m = take 4 (takeWhile isDigit (drop n text))"
  shows "list_all isDigit m \<and> (length m = 3 \<or> length m = 4)
       \<and> take (length m) (drop n text) = m
       \<and> (length m = 3 \<longrightarrow> (n + 3 = length text \<or> \<not> isDigit (text ! (n + 3))))"
proof -
  let ?run = "takeWhile isDigit (drop n text)"
  from assms(1) have l: "3 \<le> length ?run"
    by (auto simp: digitsAt_def takeWhile_ge3)
  have d: "list_all isDigit m"
    unfolding assms(2) list_all_iff by (auto dest!: in_set_takeD set_takeWhileD)
  have len: "length m = 3 \<or> length m = 4"
    using l unfolding assms(2) by auto
  have "take (length ?run) (drop n text) = ?run"
    by (metis takeWhile_eq_take)
  then have pre: "take (length m) (drop n text) = m"
    unfolding assms(2) by (metis length_take min.commute take_take)
  have nxt: "length m = 3 \<longrightarrow> (n + 3 = length text \<or> \<not> isDigit (text ! (n + 3)))"
  proof (intro impI)
    assume "length m = 3"
    then have r3: "length ?run = 3" using l unfolding assms(2) by auto
    show "n + 3 = length text \<or> \<not> isDigit (text ! (n + 3))"
    proof (cases "n + 3 = length text")
      case True then show ?thesis by simp
    next
      case False
      with assms(1) have lt: "3 < length (drop n text)" by (auto simp: digitsAt_def)
      then have "\<not> isDigit (drop n text ! length ?run)"
        using r3 by (intro nth_length_takeWhile) simp
      with r3 lt show ?thesis by (simp add: add.commute)
    qed
  qed
  from d len pre nxt show ?thesis by blast
qed

lemma of_char_digitChar: "d < 10 \<Longrightarrow> of_char (digitChar d) = 48 + d"
proof -
  assume "d < 10"
  then have "d = 0 \<or> d = 1 \<or> d = 2 \<or> d = 3 \<or> d = 4 \<or> d = 5 \<or> d = 6 \<or> d = 7 \<or> d = 8 \<or> d = 9"
    by arith
  then show ?thesis
    by (elim disjE) (simp_all add: digitChar_def)
qed

lemma parseInt_snoc: "parseInt (ds @ [c]) = 10 * parseInt ds + (c - 48)"
  by (simp add: parseInt_def)

lemma parseInt_decimal: "parseInt (js (decimal v)) = v"
proof (induction v rule: decimal.induct)
  case (1 n)
  show ?case
  proof (cases "n < 10")
    case True
    then show ?thesis
      by (simp add: decimal.simps [of n] js_def parseInt_def of_char_digitChar)
  next
    case False
    have "parseInt (js (decimal n)) = 10 * parseInt (js (decimal (n div 10))) + (48 + n mod 10 - 48)"
      using False parseInt_snoc [of "js (decimal (n div 10))"]
      by (simp add: decimal.simps [of n] js_def of_char_digitChar)
    with False "1.IH" show ?thesis by simp
  qed
qed

lemma digits_decimal: "list_all isDigit (js (decimal v))"
proof (induction v rule: decimal.induct)
  case (1 n)
  show ?case
  proof (cases "n < 10")
    case True
    then show ?thesis
      by (simp add: decimal.simps [of n] js_def of_char_digitChar isDigit_def)
  next
    case False
    with "1.IH" show ?thesis
      by (simp add: decimal.simps [of n] js_def of_char_digitChar isDigit_def)
  qed
qed

lemma length_decimal_1: "v < 10 \<Longrightarrow> length (decimal v) = 1"
  by (simp add: decimal.simps [of v])

lemma length_decimal_2: "10 \<le> v \<Longrightarrow> v < 100 \<Longrightarrow> length (decimal v) = 2"
  by (simp add: decimal.simps [of v] length_decimal_1)

lemma length_decimal_3: "100 \<le> v \<Longrightarrow> v < 1000 \<Longrightarrow> length (decimal v) = 3"
  by (simp add: decimal.simps [of v] length_decimal_2)

lemma length_decimal_4: "1000 \<le> v \<Longrightarrow> v < 10000 \<Longrightarrow> length (decimal v) = 4"
  by (simp add: decimal.simps [of v] length_decimal_3)

lemma matchDigits_all:
  assumes "list_all isDigit s" and "length s = 3 \<or> length s = 4"
  shows "matchDigits s = Some s"
proof -
  from assms(1) have t: "takeWhile isDigit s = s"
    by (simp add: list_all_iff)
  from assms(2) obtain c cs where s: "s = c # cs"
    by (cases s) auto
  from assms(2) t show ?thesis
    unfolding s by auto
qed

lemma parseStat_decimal:
  assumes "100 \<le> v" and "v \<le> 9999"
  shows "parseStat (js (decimal v)) = v"
proof -
  have "length (decimal v) = 3 \<or> length (decimal v) = 4"
    using assms length_decimal_3 [of v] length_decimal_4 [of v] by linarith
  then have "matchDigits (js (decimal v)) = Some (js (decimal v))"
    by (intro matchDigits_all digits_decimal) (simp add: js_def)
  then show ?thesis
    by (simp add: parseStat_def parseInt_decimal)
qed

lemma parseStat_first_run:
  assumes "digitsAt s n" and "\<forall>k < n. \<not> digitsAt s k"
  shows "matchDigits s = Some (take 4 (takeWhile isDigit (drop n s)))"
proof -
  from assms(1) have "matchDigits s \<noteq> None"
    by (auto simp: matchDigits_None)
  then obtain m where m: "matchDigits s = Some m" by auto
  from matchDigits_Some [OF m] obtain n' where n': "digitsAt s n'" "\<forall>k < n'. \<not> digitsAt s k"
    "m = take 4 (takeWhile isDigit (drop n' s))" by blast
  from assms n'(1,2) have "n' = n"
    by (meson linorder_neqE_nat)
  with m n'(3) show ?thesis by simp
qed

lemma parseAptitude_none: "\<forall>c \<in> set s. \<not> isUpper c \<Longrightarrow> parseAptitude s = js ''G''"
proof -
  assume "\<forall>c \<in> set s. \<not> isUpper c"
  then have "find isUpper s = None" by (simp add: find_None_iff)
  then show ?thesis by (simp add: parseAptitude_def)
qed

lemma parseAptitude_first:
  "isUpper c \<Longrightarrow> \<forall>d \<in> set pre. \<not> isUpper d \<Longrightarrow> parseAptitude (pre @ c # post) = [c]"
  by (induction pre) (simp_all add: parseAptitude_def)

lemma parseAptitude_letter: "\<exists>c. parseAptitude s = [c] \<and> isUpper c"
proof (cases "find isUpper s")
  case None
  then show ?thesis by (simp add: parseAptitude_def js_def isUpper_def)
next
  case (Some c)
  then have "isUpper c" by (auto simp: find_Some_iff)
  with Some show ?thesis by (simp add: parseAptitude_def)
qed

section \<open>Parsing stat and aptitude fields (C5)\<close>

text \<open>
  C5. For every recognised text: when no three consecutive digits occur anywhere,
  \<^const>\<open>parseStat\<close> is 0; otherwise, with \<open>n\<close> the first position where three
  consecutive digits start, the match is the three digits there together with a fourth
  one if it follows, and \<^const>\<open>parseStat\<close> is its value as a decimal numeral
  (\<^const>\<open>parseInt\<close> inverts \<^const>\<open>decimal\<close>; a text that is the numeral of a
  number from 100 to 9999 parses to that number). \<^const>\<open>parseAptitude\<close> is the first
  upper-case letter of the text, and \<open>G\<close> when the text has none. No case raises an
  error: both functions are total. In particular \<open>S 1012\<close> parses to 1012, the empty
  text to 0 and to \<open>G\<close>, and \<open>A\<close> to \<open>A\<close>.
\<close>

theorem field_parsing:
  "((\<forall>n. \<not> digitsAt s n) \<longrightarrow> parseStat s = 0)
   \<and> (\<forall>n. digitsAt s n \<and> (\<forall>k < n. \<not> digitsAt s k) \<longrightarrow>
        (\<exists>m. m = take 4 (takeWhile isDigit (drop n s))
           \<and> (length m = 3 \<or> length m = 4) \<and> list_all isDigit m
           \<and> take (length m) (drop n s) = m
           \<and> (length m = 3 \<longrightarrow> n + 3 = length s \<or> \<not> isDigit (s ! (n + 3)))
           \<and> parseStat s = parseInt m))
   \<and> (\<forall>v. parseInt (js (decimal v)) = v)
   \<and> (\<forall>v. 100 \<le> v \<and> v \<le> 9999 \<longrightarrow> parseStat (js (decimal v)) = v)
   \<and> ((\<forall>c \<in> set s. \<not> isUpper c) \<longrightarrow> parseAptitude s = js ''G'')
   \<and> (\<forall>pre c post. s = pre @ c # post \<and> isUpper c \<and> (\<forall>d \<in> set pre. \<not> isUpper d) \<longrightarrow>
        parseAptitude s = [c])
   \<and> parseStat (js ''S 1012'') = 1012 \<and> parseStat [] = 0
   \<and> parseAptitude (js ''A'') = js ''A'' \<and> parseAptitude [] = js ''G''"
proof -
  have none: "(\<forall>n. \<not> digitsAt s n) \<longrightarrow> parseStat s = 0"
    using matchDigits_None [of s] by (auto simp: parseStat_def)
  have first: "\<forall>n. digitsAt s n \<and> (\<forall>k < n. \<not> digitsAt s k) \<longrightarrow>
        (\<exists>m. m = take 4 (takeWhile isDigit (drop n s))
           \<and> (length m = 3 \<or> length m = 4) \<and> list_all isDigit m
           \<and> take (length m) (drop n s) = m
           \<and> (length m = 3 \<longrightarrow> n + 3 = length s \<or> \<not> isDigit (s ! (n + 3)))
           \<and> parseStat s = parseInt m)"
  proof (intro allI impI)
    fix n
    assume a: "digitsAt s n \<and> (\<forall>k < n. \<not> digitsAt s k)"
    define m where "m = take 4 (takeWhile isDigit (drop n s))"
    from a have "matchDigits s = Some m"
      unfolding m_def by (intro parseStat_first_run) simp_all
    then have p: "parseStat s = parseInt m"
      by (simp add: parseStat_def)
    from a matched_shape [of s n m] m_def p
    show "\<exists>m. m = take 4 (takeWhile isDigit (drop n s))
           \<and> (length m = 3 \<or> length m = 4) \<and> list_all isDigit m
           \<and> take (length m) (drop n s) = m
           \<and> (length m = 3 \<longrightarrow> n + 3 = length s \<or> \<not> isDigit (s ! (n + 3)))
           \<and> parseStat s = parseInt m"
      by blast
  qed
  have apt: "\<forall>pre c post. s = pre @ c # post \<and> isUpper c \<and> (\<forall>d \<in> set pre. \<not> isUpper d) \<longrightarrow>
        parseAptitude s = [c]"
    using parseAptitude_first by blast
  have ex1: "parseStat (js ''S 1012'') = 1012"
    by (simp add: parseStat_def js_def isDigit_def parseInt_def)
  have ex2: "parseStat [] = 0"
    by (simp add: parseStat_def)
  have ex3: "parseAptitude (js ''A'') = js ''A''"
    by (simp add: parseAptitude_def js_def isUpper_def)
  have ex4: "parseAptitude [] = js ''G''"
    by (simp add: parseAptitude_def)
  from none first parseInt_decimal parseStat_decimal parseAptitude_none [of s] apt ex1 ex2 ex3 ex4
  show ?thesis
    by blast
qed

text \<open>
  The theorem on the noisy text \<open>ab12 34567x\<close>: the first run of three digits starts at
  position 5, the match is \<open>3456\<close> and the stat is 3456; the text \<open>speed: Bc\<close> has
  its first upper-case letter after the prefix \<open>speed: \<close>, which has none.
\<close>

theorem field_parsing_witness:
  "digitsAt (js ''ab12 34567x'') 5
   \<and> \<not> digitsAt (js ''ab12 34567x'') 0 \<and> \<not> digitsAt (js ''ab12 34567x'') 1
   \<and> \<not> digitsAt (js ''ab12 34567x'') 2 \<and> \<not> digitsAt (js ''ab12 34567x'') 3
   \<and> \<not> digitsAt (js ''ab12 34567x'') 4
   \<and> parseStat (js ''ab12 34567x'') = 3456
   \<and> 100 \<le> (731::nat) \<and> (731::nat) \<le> 9999 \<and> parseStat (js (decimal 731)) = 731
   \<and> parseAptitude (js ''speed: Bc'') = js ''B''"
proof -
  let ?s = "js ''ab12 34567x''"
  have d: "digitsAt ?s 5" "\<not> digitsAt ?s 0" "\<not> digitsAt ?s 1" "\<not> digitsAt ?s 2"
    "\<not> digitsAt ?s 3" "\<not> digitsAt ?s 4"
    by (simp_all add: digitsAt_def js_def isDigit_def)
  then have l: "\<forall>k < 5. \<not> digitsAt ?s k"
    by (auto simp: less_Suc_eq eval_nat_numeral)
  have "\<forall>n. digitsAt ?s n \<and> (\<forall>k < n. \<not> digitsAt ?s k) \<longrightarrow>
        (\<exists>m. m = take 4 (takeWhile isDigit (drop n ?s)) \<and> (length m = 3 \<or> length m = 4)
           \<and> list_all isDigit m \<and> take (length m) (drop n ?s) = m
           \<and> (length m = 3 \<longrightarrow> n + 3 = length ?s \<or> \<not> isDigit (?s ! (n + 3)))
           \<and> parseStat ?s = parseInt m)"
    using field_parsing [of ?s] by blast
  with d(1) l have "parseStat ?s = parseInt (take 4 (takeWhile isDigit (drop 5 ?s)))"
    by blast
  then have a: "parseStat ?s = 3456"
    by (simp add: js_def isDigit_def parseInt_def)
  have "\<forall>v. 100 \<le> v \<and> v \<le> 9999 \<longrightarrow> parseStat (js (decimal v)) = v"
    using field_parsing [of ?s] by blast
  then have b: "parseStat (js (decimal 731)) = 731"
    by simp
  have "\<forall>pre c post. js ''speed: Bc'' = pre @ c # post \<and> isUpper c \<and> (\<forall>d \<in> set pre. \<not> isUpper d) \<longrightarrow>
        parseAptitude (js ''speed: Bc'') = [c]"
    using field_parsing [of "js ''speed: Bc''"] by blast
  moreover have "js ''speed: Bc'' = js ''speed: '' @ 66 # js ''c'' \<and> isUpper 66
      \<and> (\<forall>d \<in> set (js ''speed: ''). \<not> isUpper d)"
    by (simp add: js_def isUpper_def)
  ultimately have c: "parseAptitude (js ''speed: Bc'') = [66]"
    by blast
  from d a b c show ?thesis
    by (simp add: js_def)
qed

subsection \<open>The parsed record\<close>

lemma bindE_Inr: "(bindE m f = Inr v) = (\<exists>a. m = Inr a \<and> f a = Inr v)"
  by (cases m) (simp_all add: bindE_def)

lemma field_Inr: "(field data key = Inr t) = (map_of data key = Some t)"
  by (simp add: field_def split: option.split)

text \<open>The fifteen fields \<^const>\<open>parseExtractedData\<close> reads without a fallback.\<close>

definition requiredFields :: "string list" where
  "requiredFields =
     [''speed'', ''stamina'', ''power'', ''guts'', ''wit'', ''turf_aptitude'', ''dirt_aptitude'',
      ''sprint_aptitude'', ''mile_aptitude'', ''medium_aptitude'', ''long_aptitude'',
      ''front_aptitude'', ''pace_aptitude'', ''late_aptitude'', ''end_aptitude'']"

definition aptitudeValues :: "ParsedUmaData \<Rightarrow> jstring list" where
  "aptitudeValues p =
     [a_turf (a_track (p_aptitudes p)), a_dirt (a_track (p_aptitudes p)),
      a_sprint (a_distance (p_aptitudes p)), a_mile (a_distance (p_aptitudes p)),
      a_medium (a_distance (p_aptitudes p)), a_long (a_distance (p_aptitudes p)),
      a_front (a_style (p_aptitudes p)), a_pace (a_style (p_aptitudes p)),
      a_late (a_style (p_aptitudes p)), a_end (a_style (p_aptitudes p))]"

text \<open>\<^verbatim>\<open>aptitudeOrder\<close> of \<^verbatim>\<open>getHighestAptitude\<close>: the eight grades.\<close>

definition aptitudeOrder :: "jstring list" where
  "aptitudeOrder = map js [''S'', ''A'', ''B'', ''C'', ''D'', ''E'', ''F'', ''G'']"

lemma parse_defined:
  assumes "\<forall>k \<in> set requiredFields. map_of data k \<noteq> None"
  shows "\<exists>p. parseExtractedData data = Inr p"
proof -
  from assms have "\<forall>k \<in> set requiredFields. \<exists>t. field data k = Inr t"
    by (simp add: field_Inr)
  then show ?thesis
    by (auto simp: requiredFields_def parseExtractedData_def bindE_def Let_def)
qed

lemma parse_aptitudes:
  assumes "parseExtractedData data = Inr p"
  shows "\<forall>v \<in> set (aptitudeValues p). \<exists>c. v = [c] \<and> isUpper c"
  using assms
  by (auto simp: parseExtractedData_def bindE_Inr Let_def aptitudeValues_def parseAptitude_letter)

lemma parse_skills:
  assumes "parseExtractedData data = Inr p"
  shows "p_skills p = collectSkills data 1 []"
  using assms
  by (auto simp: parseExtractedData_def bindE_Inr Let_def)

text \<open>A dictionary as a run could leave it: \<open>skill_2\<close> is missing, \<open>skill_3\<close> is there.\<close>

definition sampleData :: ExtractedData where
  "sampleData =
     [(''uma_outfit'', js ''[Special Dreamer]''), (''uma_name'', js ''Special Week''),
      (''speed'', js ''S 1012''), (''stamina'', js ''823''), (''power'', js ''A 910''),
      (''guts'', js ''45''), (''wit'', js ''''),
      (''turf_aptitude'', js ''H''), (''dirt_aptitude'', js ''''),
      (''sprint_aptitude'', js ''c''), (''mile_aptitude'', js ''A''),
      (''medium_aptitude'', js ''A''), (''long_aptitude'', js ''B''),
      (''front_aptitude'', js ''G''), (''pace_aptitude'', js ''A''),
      (''late_aptitude'', js ''a A''), (''end_aptitude'', js ''C''),
      (''skill_1'', js ''Shooting Star''), (''skill_3'', js ''Corner Recovery'')]"

text \<open>The aptitude fields, in the order of \<^const>\<open>aptitudeValues\<close>.\<close>

definition aptitudeFields :: "string list" where
  "aptitudeFields =
     [''turf_aptitude'', ''dirt_aptitude'', ''sprint_aptitude'', ''mile_aptitude'',
      ''medium_aptitude'', ''long_aptitude'', ''front_aptitude'', ''pace_aptitude'',
      ''late_aptitude'', ''end_aptitude'']"

text \<open>
  The value \<open>v\<close> is the first upper-case letter of the text \<open>t\<close>, or \<open>G\<close> when the text
  has no upper-case letter.
\<close>

definition firstUpperOrG :: "jstring \<Rightarrow> jstring \<Rightarrow> bool" where
  "firstUpperOrG t v =
     ((\<exists>pre c post. t = pre @ c # post \<and> isUpper c \<and> (\<forall>d \<in> set pre. \<not> isUpper d) \<and> v = [c])
      \<or> ((\<forall>d \<in> set t. \<not> isUpper d) \<and> v = js ''G''))"

lemma parseAptitude_firstUpperOrG: "firstUpperOrG t (parseAptitude t)"
proof (cases "find isUpper t")
  case None
  then have "\<forall>d \<in> set t. \<not> isUpper d"
    by (simp add: find_None_iff)
  then show ?thesis
    by (simp add: firstUpperOrG_def parseAptitude_none)
next
  case (Some c)
  then obtain i where i: "i < length t" "isUpper (t ! i)" "c = t ! i" "\<forall>j < i. \<not> isUpper (t ! j)"
    by (auto simp: find_Some_iff)
  have t: "t = take i t @ c # drop (Suc i) t"
    using i(1,3) by (simp add: id_take_nth_drop)
  have p: "\<forall>d \<in> set (take i t). \<not> isUpper d"
    using i(1,4) by (auto simp: in_set_conv_nth)
  from i(2,3) have "isUpper c" by simp
  with p have "parseAptitude (take i t @ c # drop (Suc i) t) = [c]"
    by (intro parseAptitude_first)
  with t have v: "parseAptitude t = [c]"
    by simp
  from t \<open>isUpper c\<close> p v show ?thesis
    unfolding firstUpperOrG_def by blast
qed

lemma firstUpperOrG_unique: "firstUpperOrG t v \<Longrightarrow> v = parseAptitude t"
  by (auto simp: firstUpperOrG_def parseAptitude_none parseAptitude_first)

lemma parse_aptitude_texts:
  assumes "parseExtractedData data = Inr p"
  shows "list_all2 (\<lambda>key v. \<exists>t. map_of data key = Some t \<and> firstUpperOrG t v)
           aptitudeFields (aptitudeValues p)"
  using assms
  by (auto simp: parseExtractedData_def bindE_Inr field_Inr Let_def aptitudeValues_def
      aptitudeFields_def parseAptitude_firstUpperOrG)

section \<open>Aptitude values of the parsed record (C9)\<close>

text \<open>
  C9, as the code has it. When the fifteen stat and aptitude fields are present,
  \<^const>\<open>parseExtractedData\<close> returns a record. Each of the ten aptitude values of a
  returned record is the first upper-case letter \<open>A\<close> to \<open>Z\<close> of the text of its
  own field, or \<open>G\<close> when that text has none (\<^const>\<open>firstUpperOrG\<close>, which
  determines the value); so each is a one-letter string holding an upper-case letter.
\<close>

theorem aptitude_values:
  "((\<forall>k \<in> set requiredFields. map_of data k \<noteq> None) \<longrightarrow> (\<exists>p. parseExtractedData data = Inr p))
   \<and> (\<forall>p. parseExtractedData data = Inr p \<longrightarrow>
         list_all2 (\<lambda>key v. \<exists>t. map_of data key = Some t \<and> firstUpperOrG t v)
           aptitudeFields (aptitudeValues p)
         \<and> (\<forall>v \<in> set (aptitudeValues p). \<exists>c. v = [c] \<and> isUpper c))
   \<and> (\<forall>t v. firstUpperOrG t v \<longrightarrow> v = parseAptitude t)"
  using parse_defined [of data] parse_aptitudes [of data] parse_aptitude_texts [of data]
    firstUpperOrG_unique
  by blast

text \<open>
  The theorem on \<^const>\<open>sampleData\<close>: the ten values, field by field; the texts
  \<open>c\<close> and the empty text give \<open>G\<close>, the text \<open>a A\<close> gives \<open>A\<close>.
\<close>

theorem aptitude_values_witness:
  "list_all (\<lambda>k. map_of sampleData k \<noteq> None) requiredFields
   \<and> (case parseExtractedData sampleData of
         Inl e \<Rightarrow> False
       | Inr p \<Rightarrow> aptitudeValues p =
           [js ''H'', js ''G'', js ''G'', js ''A'', js ''A'', js ''B'', js ''G'', js ''A'',
            js ''A'', js ''C'']
           \<and> list_all (\<lambda>v. length v = 1 \<and> isUpper (hd v)) (aptitudeValues p))"
proof -
  have f: "list_all (\<lambda>k. map_of sampleData k \<noteq> None) requiredFields"
    by (simp add: requiredFields_def sampleData_def)
  then have "\<forall>k \<in> set requiredFields. map_of sampleData k \<noteq> None"
    by (simp add: list_all_iff)
  with aptitude_values [of sampleData] obtain p where p: "parseExtractedData sampleData = Inr p"
    by blast
  with aptitude_values [of sampleData]
  have l: "list_all2 (\<lambda>key v. \<exists>t. map_of sampleData key = Some t \<and> firstUpperOrG t v)
           aptitudeFields (aptitudeValues p)"
    and u: "\<forall>v \<in> set (aptitudeValues p). \<exists>c. v = [c] \<and> isUpper c"
    by blast+
  have q: "\<And>t v. firstUpperOrG t v \<Longrightarrow> v = parseAptitude t"
    using aptitude_values [of sampleData] by blast
  have "list_all2 (\<lambda>key v. \<exists>t. map_of sampleData key = Some t \<and> v = parseAptitude t)
           aptitudeFields (aptitudeValues p)"
    by (rule list_all2_mono [OF l]) (use q in blast)
  then have v: "aptitudeValues p =
           [js ''H'', js ''G'', js ''G'', js ''A'', js ''A'', js ''B'', js ''G'', js ''A'',
            js ''A'', js ''C'']"
    by (simp add: aptitudeFields_def aptitudeValues_def sampleData_def parseAptitude_def
        js_def isUpper_def)
  from u have "list_all (\<lambda>v. length v = 1 \<and> isUpper (hd v)) (aptitudeValues p)"
    by (auto simp: list_all_iff)
  with f p v show ?thesis
    by simp
qed

text \<open>
  C9 as stated fails: with the text \<open>H\<close> recognised in the turf region, the turf
  aptitude of the returned record is \<open>H\<close>, which is none of the eight grades.
\<close>

theorem aptitude_values_counterexample:
  "(case parseExtractedData sampleData of
      Inl e \<Rightarrow> False
    | Inr p \<Rightarrow> a_turf (a_track (p_aptitudes p)) = js ''H''
              \<and> a_turf (a_track (p_aptitudes p)) \<notin> set aptitudeOrder)"
  by (simp add: parseExtractedData_def bindE_def field_def sampleData_def Let_def
      parseAptitude_def js_def isUpper_def aptitudeOrder_def)

subsection \<open>The skill texts that are collected\<close>

definition skillEntry :: "ExtractedData \<Rightarrow> nat \<Rightarrow> jstring list" where
  "skillEntry data i =
     (case map_of data (skill_key i) of
        None \<Rightarrow> []
      | Some skillText \<Rightarrow> if skillText \<noteq> [] \<and> trim skillText \<noteq> [] then [trim skillText] else [])"

lemma collect_upto:
  assumes "a \<le> g" and "map_of data (skill_key g) = None"
    and "\<forall>i. a \<le> i \<and> i < g \<longrightarrow> map_of data (skill_key i) \<noteq> None"
  shows "collectSkills data a acc = acc @ concat (map (skillEntry data) [a..<g])"
  using assms
proof (induction "g - a" arbitrary: a acc)
  case 0
  then have "a = g" by simp
  with 0 show ?case
    by (subst collectSkills.simps) simp
next
  case (Suc n)
  then have lt: "a < g" by simp
  with Suc.prems obtain t where t: "map_of data (skill_key a) = Some t"
    by auto
  from Suc have n: "n = g - Suc a" by simp
  have "collectSkills data a acc =
          collectSkills data (Suc a) (acc @ skillEntry data a)"
    by (subst collectSkills.simps) (simp add: t skillEntry_def)
  also have "\<dots> = (acc @ skillEntry data a) @ concat (map (skillEntry data) [Suc a..<g])"
    using lt Suc.prems by (intro Suc.hyps(1) [OF n]) simp_all
  finally show ?case
    using lt by (simp add: upt_conv_Cons)
qed

lemma first_gap:
  assumes "1 \<le> k" and "map_of data (skill_key k) = None"
  shows "\<exists>g. 1 \<le> g \<and> g \<le> k \<and> map_of data (skill_key g) = None
           \<and> (\<forall>i. 1 \<le> i \<and> i < g \<longrightarrow> map_of data (skill_key i) \<noteq> None)"
proof -
  define g where "g = (LEAST i. 1 \<le> i \<and> map_of data (skill_key i) = None)"
  have a: "1 \<le> g \<and> map_of data (skill_key g) = None"
    unfolding g_def by (rule LeastI [of _ k]) (use assms in simp)
  have b: "g \<le> k"
    unfolding g_def by (rule Least_le) (use assms in simp)
  have c: "\<forall>i. 1 \<le> i \<and> i < g \<longrightarrow> map_of data (skill_key i) \<noteq> None"
  proof (intro allI impI)
    fix i
    assume i: "1 \<le> i \<and> i < g"
    then have "i < (LEAST i. 1 \<le> i \<and> map_of data (skill_key i) = None)"
      by (simp add: g_def)
    then have "\<not> (1 \<le> i \<and> map_of data (skill_key i) = None)"
      by (rule not_less_Least)
    with i show "map_of data (skill_key i) \<noteq> None"
      by simp
  qed
  from a b c show ?thesis by blast
qed

lemma collect_agree:
  assumes "1 \<le> k" and "map_of data (skill_key k) = None"
    and "\<forall>i. 1 \<le> i \<and> i \<le> k \<longrightarrow> map_of data' (skill_key i) = map_of data (skill_key i)"
  shows "collectSkills data' 1 [] = collectSkills data 1 []"
proof -
  from first_gap [OF assms(1,2)] obtain g where g: "1 \<le> g" "g \<le> k"
    "map_of data (skill_key g) = None"
    "\<forall>i. 1 \<le> i \<and> i < g \<longrightarrow> map_of data (skill_key i) \<noteq> None" by blast
  with assms(3) have g': "map_of data' (skill_key g) = None"
    "\<forall>i. 1 \<le> i \<and> i < g \<longrightarrow> map_of data' (skill_key i) \<noteq> None" by auto
  have e: "map (skillEntry data') [1..<g] = map (skillEntry data) [1..<g]"
    using assms(3) g(2) by (simp add: skillEntry_def)
  have a: "collectSkills data' 1 [] = concat (map (skillEntry data') [1..<g])"
    using collect_upto [OF g(1) g'(1) g'(2), of "[]"] by simp
  have b: "collectSkills data 1 [] = concat (map (skillEntry data) [1..<g])"
    using collect_upto [OF g(1) g(3) g(4), of "[]"] by simp
  show ?thesis
    by (simp only: a b e)
qed

section \<open>Skill collection stops at the first gap (C10)\<close>

text \<open>
  C10. If some \<open>skill_k\<close> (\<open>k \<ge> 1\<close>) is absent from the extracted fields, the collection
  loop ends at the first absent index \<open>g \<le> k\<close> and the skills list of the record is made
  of the trimmed, non-blank texts of \<open>skill_1\<close> ... \<open>skill_(g-1)\<close> in order. So nothing
  beyond \<open>skill_k\<close> contributes: a dictionary that agrees with this one on \<open>skill_1\<close> ...
  \<open>skill_k\<close> gives the same list, whatever fields it holds after them.
\<close>

theorem skills_stop_at_first_gap:
  assumes "1 \<le> k" and "map_of data (skill_key k) = None"
  shows "(\<exists>g. 1 \<le> g \<and> g \<le> k \<and> map_of data (skill_key g) = None
            \<and> (\<forall>i. 1 \<le> i \<and> i < g \<longrightarrow> map_of data (skill_key i) \<noteq> None)
            \<and> collectSkills data 1 [] = concat (map (skillEntry data) [1..<g]))
       \<and> (\<forall>data'. (\<forall>i. 1 \<le> i \<and> i \<le> k \<longrightarrow> map_of data' (skill_key i) = map_of data (skill_key i))
            \<longrightarrow> collectSkills data' 1 [] = collectSkills data 1 [])
       \<and> (\<forall>p. parseExtractedData data = Inr p \<longrightarrow> p_skills p = collectSkills data 1 [])"
proof -
  from first_gap [OF assms] obtain g where g: "1 \<le> g" "g \<le> k"
    "map_of data (skill_key g) = None"
    "\<forall>i. 1 \<le> i \<and> i < g \<longrightarrow> map_of data (skill_key i) \<noteq> None" by blast
  have "collectSkills data 1 [] = concat (map (skillEntry data) [1..<g])"
    using collect_upto [OF g(1) g(3) g(4), of "[]"] by simp
  with g have a: "\<exists>g. 1 \<le> g \<and> g \<le> k \<and> map_of data (skill_key g) = None
            \<and> (\<forall>i. 1 \<le> i \<and> i < g \<longrightarrow> map_of data (skill_key i) \<noteq> None)
            \<and> collectSkills data 1 [] = concat (map (skillEntry data) [1..<g])"
    by blast
  from a collect_agree [OF assms] parse_skills [of data] show ?thesis
    by blast
qed

text \<open>
  The theorem on \<^const>\<open>sampleData\<close>, where \<open>skill_2\<close> is absent: only \<open>skill_1\<close> is
  collected, though \<open>skill_3\<close> is present.
\<close>

theorem skills_stop_at_first_gap_witness:
  "(1::nat) \<le> 2 \<and> map_of sampleData (skill_key 2) = None
   \<and> map_of sampleData (skill_key 3) = Some (js ''Corner Recovery'')
   \<and> collectSkills sampleData 1 [] = [js ''Shooting Star'']
   \<and> (case parseExtractedData sampleData of Inl e \<Rightarrow> False
       | Inr p \<Rightarrow> p_skills p = [js ''Shooting Star''])"
proof -
  have k1: "skill_key 1 = ''skill_1''" and k2: "skill_key 2 = ''skill_2''"
    and k3: "skill_key 3 = ''skill_3''"
    by (simp_all add: skill_key_def decimal.simps digitChar_def)
  have a: "(1::nat) \<le> 2"
    by simp
  have b: "map_of sampleData (skill_key 2) = None"
    unfolding k2 by (simp add: sampleData_def)
  have c: "map_of sampleData (skill_key 3) = Some (js ''Corner Recovery'')"
    unfolding k3 by (simp add: sampleData_def)
  have d: "map_of sampleData (skill_key 1) = Some (js ''Shooting Star'')"
    unfolding k1 by (simp add: sampleData_def)
  note t = skills_stop_at_first_gap [OF a b]
  from t obtain g where g: "1 \<le> g" "g \<le> 2" "map_of sampleData (skill_key g) = None"
    "collectSkills sampleData 1 [] = concat (map (skillEntry sampleData) [1..<g])"
    by blast
  from g(1,2) have "g = 1 \<or> g = 2" by arith
  with g(3) d have g2: "g = 2" by auto
  have "[1..<2] = [1::nat]"
    by (simp add: upt_conv_Cons)
  moreover have "skillEntry sampleData 1 = [js ''Shooting Star'']"
    unfolding skillEntry_def d by (simp add: trim_def js_def isSpace_def)
  ultimately have e: "collectSkills sampleData 1 [] = [js ''Shooting Star'']"
    unfolding g(4) g2 by (simp only: list.map concat.simps append_Nil2)
  have "\<forall>k \<in> set requiredFields. map_of sampleData k \<noteq> None"
    by (simp add: requiredFields_def sampleData_def)
  then obtain p where p: "parseExtractedData sampleData = Inr p"
    using parse_defined [of sampleData] by blast
  with t have "p_skills p = collectSkills sampleData 1 []"
    by blast
  with e have q: "p_skills p = [js ''Shooting Star'']"
    by (simp only:)
  from a b c e show ?thesis
    unfolding p using q by simp
qed

text \<open>Two templates for examples: one that correlates equally at every scale, one that
  correlates best when scaled to a width of 120 pixels.\<close>

definition flatTemplate :: Template where
  "flatTemplate = \<lparr>t_width = 100, t_height = 50, t_match = (\<lambda>w h. (1 / 2, 10, 20))\<rparr>"

definition peakTemplate :: Template where
  "peakTemplate = \<lparr>t_width = 100, t_height = 50,
     t_match = (\<lambda>w h. (1 - \<bar>real_of_int (w - 120)\<bar> / 200, 40, 60))\<rparr>"

lemma flat_search:
  "findBestTemplateMatch 1000 2000 flatTemplate =
     Some \<lparr>tm_x = 10, tm_y = 20, tm_scaleX = 29 / 40, tm_scaleY = 29 / 40, tm_confidence = 1 / 2\<rparr>"
  by (simp add: findBestTemplateMatch_def binarySearchScale.simps searchStep_def testScale_def
      flatTemplate_def maxSteps_def js_round_def Let_def)

lemma calibration_guard:
  "(handleFileSelect iw ih changeTemplate headersTemplate ocr = OnError CouldNotFindTemplateMatches) =
     (findBestTemplateMatch iw ih changeTemplate = None \<or> findBestTemplateMatch iw ih headersTemplate = None)"
  by (simp add: handleFileSelect_def Let_def split: option.split sum.split)

lemma findBest_funpow:
  "findBestTemplateMatch iw ih t = bestMatch ((searchStep iw ih t ^^ 10) searchStart)"
  by (simp add: findBestTemplateMatch_def binarySearchScale_funpow maxSteps_def searchStart_def)

section \<open>The scale search (C8)\<close>

text \<open>
  C8, as the code has it. One iteration probes the quartile, the midpoint and the
  three-quarter point of the interval, in this order, and keeps as best match the first
  probe whose confidence is strictly above the best so far (a probe whose scaled
  template does not fit the image counts as confidence 0 and is never kept). It then
  narrows the interval: to the middle half when the midpoint confidence is strictly
  greater than both others; otherwise to the lower half when the quartile confidence is
  at least the three-quarter one, and to the upper half when it is not. So a tie never
  goes to the midpoint region. The search runs exactly ten iterations from the interval
  [0.3, 2], and it returns a match measured at one of the thirty probes whose confidence
  is above -1 and at least that of every probe measured, or no match when no measured
  confidence is above -1.
\<close>

theorem scale_search:
  "(minScale (searchStep iw ih t st), maxScale (searchStep iw ih t st)) =
     (let lowScale = minScale st + (maxScale st - minScale st) * (25 / 100);
          midScale = (minScale st + maxScale st) / 2;
          highScale = minScale st + (maxScale st - minScale st) * (75 / 100);
          lowConfidence = fst (testScale iw ih t lowScale st);
          midConfidence = fst (testScale iw ih t midScale st);
          highConfidence = fst (testScale iw ih t highScale st)
      in if midConfidence > lowConfidence \<and> midConfidence > highConfidence then (lowScale, highScale)
         else if lowConfidence \<ge> highConfidence then (minScale st, midScale)
         else (midScale, maxScale st))
   \<and> (bestMatch (searchStep iw ih t st), bestConfidence (searchStep iw ih t st)) =
       foldl keepBest (bestMatch st, bestConfidence st)
         (concat (map (probeMatches iw ih t)
            [minScale st + (maxScale st - minScale st) * (25 / 100),
             (minScale st + maxScale st) / 2,
             minScale st + (maxScale st - minScale st) * (75 / 100)]))
   \<and> findBestTemplateMatch iw ih t = bestMatch ((searchStep iw ih t ^^ 10) searchStart)
   \<and> (findBestTemplateMatch iw ih t = None \<and>
          (\<forall>m \<in> set (evaluated iw ih t 10 searchStart). tm_confidence m \<le> - 1)
        \<or> (\<exists>m \<in> set (evaluated iw ih t 10 searchStart).
              findBestTemplateMatch iw ih t = Some m \<and> - 1 < tm_confidence m \<and>
              (\<forall>m' \<in> set (evaluated iw ih t 10 searchStart). tm_confidence m' \<le> tm_confidence m)))"
proof -
  have a: "(minScale (searchStep iw ih t st), maxScale (searchStep iw ih t st)) =
     (let lowScale = minScale st + (maxScale st - minScale st) * (25 / 100);
          midScale = (minScale st + maxScale st) / 2;
          highScale = minScale st + (maxScale st - minScale st) * (75 / 100);
          lowConfidence = fst (testScale iw ih t lowScale st);
          midConfidence = fst (testScale iw ih t midScale st);
          highConfidence = fst (testScale iw ih t highScale st)
      in if midConfidence > lowConfidence \<and> midConfidence > highConfidence then (lowScale, highScale)
         else if lowConfidence \<ge> highConfidence then (minScale st, midScale)
         else (midScale, maxScale st))"
    using searchStep_interval [of iw ih t st] by (simp add: testScale_eq)
  have b: "(bestMatch (searchStep iw ih t st), bestConfidence (searchStep iw ih t st)) =
       foldl keepBest (bestMatch st, bestConfidence st)
         (concat (map (probeMatches iw ih t)
            [minScale st + (maxScale st - minScale st) * (25 / 100),
             (minScale st + maxScale st) / 2,
             minScale st + (maxScale st - minScale st) * (75 / 100)]))"
    using searchStep_best [of iw ih t st] by (simp only: probeScales_def)
  have c: "findBestTemplateMatch iw ih t = None \<and>
          (\<forall>m \<in> set (evaluated iw ih t 10 searchStart). tm_confidence m \<le> - 1)
        \<or> (\<exists>m \<in> set (evaluated iw ih t 10 searchStart).
              findBestTemplateMatch iw ih t = Some m \<and> - 1 < tm_confidence m \<and>
              (\<forall>m' \<in> set (evaluated iw ih t 10 searchStart). tm_confidence m' \<le> tm_confidence m))"
    using findBest_cases [of iw ih t] by (simp only: maxSteps_def)
  from a b findBest_funpow [of iw ih t] c show ?thesis
    by (intro conjI)
qed

text \<open>
  The theorem on a template whose correlation peaks at a scaled width of 120 pixels:
  the search returns the probe at scale 77/64, with confidence 1, and no probe it
  measured did better.
\<close>

theorem scale_search_witness:
  "findBestTemplateMatch 1000 2000 peakTemplate =
     Some \<lparr>tm_x = 40, tm_y = 60, tm_scaleX = 77 / 64, tm_scaleY = 77 / 64, tm_confidence = 1\<rparr>
   \<and> \<lparr>tm_x = 40, tm_y = 60, tm_scaleX = 77 / 64, tm_scaleY = 77 / 64, tm_confidence = 1\<rparr>
       \<in> set (evaluated 1000 2000 peakTemplate 10 searchStart)
   \<and> list_all (\<lambda>m. tm_confidence m \<le> 1) (evaluated 1000 2000 peakTemplate 10 searchStart)"
proof -
  let ?m = "\<lparr>tm_x = 40, tm_y = 60, tm_scaleX = 77 / 64, tm_scaleY = 77 / 64, tm_confidence = 1\<rparr>"
  have f: "findBestTemplateMatch 1000 2000 peakTemplate = Some ?m"
    by (simp add: findBestTemplateMatch_def binarySearchScale.simps searchStep_def testScale_def
        peakTemplate_def maxSteps_def js_round_def Let_def)
  from scale_search [of 1000 2000 peakTemplate searchStart]
  have "findBestTemplateMatch 1000 2000 peakTemplate = None \<and>
          (\<forall>m \<in> set (evaluated 1000 2000 peakTemplate 10 searchStart). tm_confidence m \<le> - 1)
        \<or> (\<exists>m \<in> set (evaluated 1000 2000 peakTemplate 10 searchStart).
              findBestTemplateMatch 1000 2000 peakTemplate = Some m \<and> - 1 < tm_confidence m \<and>
              (\<forall>m' \<in> set (evaluated 1000 2000 peakTemplate 10 searchStart).
                  tm_confidence m' \<le> tm_confidence m))"
    by (elim conjE)
  with f have "?m \<in> set (evaluated 1000 2000 peakTemplate 10 searchStart)
      \<and> (\<forall>m' \<in> set (evaluated 1000 2000 peakTemplate 10 searchStart). tm_confidence m' \<le> tm_confidence ?m)"
    by auto
  with f show ?thesis
    by (simp add: list_all_iff)
qed

text \<open>
  C8 as stated fails on ties. With a template that correlates at 1/2 at every scale the
  three probes of the first iteration (scales 29/40, 23/20 and 63/40) tie, and the
  interval [3/10, 2] is narrowed to its lower half [3/10, 23/20], not to the midpoint
  region [29/40, 63/40].
\<close>

theorem scale_search_counterexample:
  "fst (testScale 1000 2000 flatTemplate (29 / 40) searchStart) = 1 / 2
   \<and> fst (testScale 1000 2000 flatTemplate (23 / 20) searchStart) = 1 / 2
   \<and> fst (testScale 1000 2000 flatTemplate (63 / 40) searchStart) = 1 / 2
   \<and> minScale (searchStep 1000 2000 flatTemplate searchStart) = 3 / 10
   \<and> maxScale (searchStep 1000 2000 flatTemplate searchStart) = 23 / 20"
  by (simp add: searchStep_def testScale_def flatTemplate_def searchStart_def js_round_def Let_def)

section \<open>Threshold of the template search and the calibration guard (C1)\<close>

text \<open>
  C1. Calibration is attempted exactly when both template searches return a match: the
  run ends with the template error if and only if one of them returns none. But
  \<^const>\<open>findBestTemplateMatch\<close> applies no threshold: with a template that
  correlates at 1/2 at every scale, below the 0.7 of the single-scale searches, it
  returns a match of confidence 1/2, and the run goes on to calibration instead of ending
  with the template error.
\<close>

theorem template_search_threshold:
  "((handleFileSelect iw ih changeTemplate headersTemplate ocr = OnError CouldNotFindTemplateMatches) =
     (findBestTemplateMatch iw ih changeTemplate = None \<or>
      findBestTemplateMatch iw ih headersTemplate = None))
   \<and> findBestTemplateMatch 1000 2000 flatTemplate =
       Some \<lparr>tm_x = 10, tm_y = 20, tm_scaleX = 29 / 40, tm_scaleY = 29 / 40, tm_confidence = 1 / 2\<rparr>
   \<and> (1 / 2 :: real) \<le> 7 / 10
   \<and> handleFileSelect 1000 2000 flatTemplate flatTemplate (\<lambda>r. []) \<noteq> OnError CouldNotFindTemplateMatches"
  using calibration_guard [of iw ih changeTemplate headersTemplate ocr]
    calibration_guard [of 1000 2000 flatTemplate flatTemplate "\<lambda>r. []"] flat_search
  by simp

subsection \<open>Tier symbols\<close>

lemma extractTierSymbol_carries:
  assumes "hasTierVariants skillName"
  shows "\<exists>t. extractTierSymbol skillName = Some t \<and> isTierGlyph t \<and> t \<in> set skillName"
proof -
  from assms obtain c where "c \<in> set skillName" "isTierGlyph c"
    by (auto simp: hasTierVariants_def isTierGlyph_def)
  then have "find isTierGlyph skillName \<noteq> None"
    by (auto simp: find_None_iff)
  then obtain t where t: "find isTierGlyph skillName = Some t"
    by auto
  then have "isTierGlyph t \<and> t \<in> set skillName"
    by (auto simp: find_Some_iff)
  with t show ?thesis
    by (simp add: extractTierSymbol_def)
qed

lemma isTierCompatible_iff:
  "isTierCompatible s p =
     (s = DoubleCircle \<and> p \<in> {Circle, Copyright, Registered, Trademark}
      \<or> s = Circle \<and> p \<in> {DoubleCircle, Copyright, Registered, Trademark}
      \<or> s = Cross \<and> p = Cross
      \<or> s \<in> {Copyright, Registered, Trademark} \<and> p \<in> {DoubleCircle, Circle})"
  by (auto simp: isTierCompatible_def tierMap_def DoubleCircle_def Circle_def Cross_def
      Copyright_def Registered_def Trademark_def split: if_splits)

section \<open>Tier adjustment of the similarity (C7)\<close>

text \<open>
  C7. A catalog name without any of the three tier glyphs (double circle, single circle,
  multiplication sign) keeps its base similarity. A catalog name that carries one always yields a tier symbol, and
  when a tier symbol is recovered from the parsed string as well, the adjusted
  similarity is the base plus 0.5 when the two symbols are equal, the base plus 0.3
  capped at 1 when they are compatible, and the base minus 0.2 floored at 0 otherwise.
  The compatible pairs are: a circle (double or single) with the other circle or with
  one of the copyright, registered and trademark signs, and one of these three signs
  with a circle.
\<close>

theorem tier_adjustment:
  "(\<not> hasTierVariants skillName \<longrightarrow>
      applyTierMatchingBonus skillName parsedSkill baseSimilarity = baseSimilarity)
   \<and> (hasTierVariants skillName \<longrightarrow>
        (\<exists>skillTier. extractTierSymbol skillName = Some skillTier \<and> isTierGlyph skillTier \<and>
           (\<forall>parsedTier. extractTierSymbol parsedSkill = Some parsedTier \<longrightarrow>
              applyTierMatchingBonus skillName parsedSkill baseSimilarity =
                (if skillTier = parsedTier then baseSimilarity + 5 / 10
                 else if isTierCompatible skillTier parsedTier then min 1 (baseSimilarity + 3 / 10)
                 else max 0 (baseSimilarity - 2 / 10)))))
   \<and> (\<forall>s p. isTierCompatible s p =
        (s = DoubleCircle \<and> p \<in> {Circle, Copyright, Registered, Trademark}
         \<or> s = Circle \<and> p \<in> {DoubleCircle, Copyright, Registered, Trademark}
         \<or> s = Cross \<and> p = Cross
         \<or> s \<in> {Copyright, Registered, Trademark} \<and> p \<in> {DoubleCircle, Circle}))"
proof (intro conjI impI allI)
  assume "\<not> hasTierVariants skillName"
  then show "applyTierMatchingBonus skillName parsedSkill baseSimilarity = baseSimilarity"
    by (simp add: applyTierMatchingBonus_def)
next
  assume h: "hasTierVariants skillName"
  from extractTierSymbol_carries [OF h] obtain t where
    t: "extractTierSymbol skillName = Some t" "isTierGlyph t" by blast
  have "\<forall>parsedTier. extractTierSymbol parsedSkill = Some parsedTier \<longrightarrow>
          applyTierMatchingBonus skillName parsedSkill baseSimilarity =
            (if t = parsedTier then baseSimilarity + 5 / 10
             else if isTierCompatible t parsedTier then min 1 (baseSimilarity + 3 / 10)
             else max 0 (baseSimilarity - 2 / 10))"
    using h t(1) by (simp add: applyTierMatchingBonus_def)
  with t show "\<exists>skillTier. extractTierSymbol skillName = Some skillTier \<and> isTierGlyph skillTier \<and>
           (\<forall>parsedTier. extractTierSymbol parsedSkill = Some parsedTier \<longrightarrow>
              applyTierMatchingBonus skillName parsedSkill baseSimilarity =
                (if skillTier = parsedTier then baseSimilarity + 5 / 10
                 else if isTierCompatible skillTier parsedTier then min 1 (baseSimilarity + 3 / 10)
                 else max 0 (baseSimilarity - 2 / 10)))"
    by blast
next
  fix s p
  show "isTierCompatible s p =
        (s = DoubleCircle \<and> p \<in> {Circle, Copyright, Registered, Trademark}
         \<or> s = Circle \<and> p \<in> {DoubleCircle, Copyright, Registered, Trademark}
         \<or> s = Cross \<and> p = Cross
         \<or> s \<in> {Copyright, Registered, Trademark} \<and> p \<in> {DoubleCircle, Circle})"
    by (rule isTierCompatible_iff)
qed

text \<open>
  The theorem on the catalog name \<open>Right-Handed\<close> with a double circle, at base
  similarity 4/5: against a parsed line ending in \<open> O\<close> (read as a single circle) the
  score is capped at 1, against one with the double circle it is 13/10, against one
  with the multiplication sign it drops to 3/5, and the name without glyph keeps 4/5.
\<close>

theorem tier_adjustment_witness:
  "hasTierVariants (js ''Right-Handed '' @ [DoubleCircle])
   \<and> extractTierSymbol (js ''Right-Handed O'') = Some Circle
   \<and> applyTierMatchingBonus (js ''Right-Handed '' @ [DoubleCircle]) (js ''Right-Handed O'') (4 / 5) = 1
   \<and> applyTierMatchingBonus (js ''Right-Handed '' @ [DoubleCircle])
        (js ''Right-Handed '' @ [DoubleCircle]) (4 / 5) = 13 / 10
   \<and> applyTierMatchingBonus (js ''Right-Handed '' @ [DoubleCircle])
        (js ''Right-Handed '' @ [Cross]) (4 / 5) = 3 / 5
   \<and> \<not> hasTierVariants (js ''Right-Handed'')
   \<and> applyTierMatchingBonus (js ''Right-Handed'') (js ''Right-Handed O'') (4 / 5) = 4 / 5"
proof -
  let ?name = "js ''Right-Handed '' @ [DoubleCircle]"
  have h: "hasTierVariants ?name"
    by (simp add: hasTierVariants_def)
  have n: "extractTierSymbol ?name = Some DoubleCircle"
    by (simp add: extractTierSymbol_def js_def isTierGlyph_def DoubleCircle_def Circle_def
        Cross_def Copyright_def Registered_def Trademark_def)
  have p1: "extractTierSymbol (js ''Right-Handed O'') = Some Circle"
    by (simp add: extractTierSymbol_def js_def isTierGlyph_def DoubleCircle_def Circle_def
        Cross_def Copyright_def Registered_def Trademark_def endsWith_def trim_def isSpace_def)
  have p2: "extractTierSymbol (js ''Right-Handed '' @ [Cross]) = Some Cross"
    by (simp add: extractTierSymbol_def js_def isTierGlyph_def DoubleCircle_def Circle_def
        Cross_def Copyright_def Registered_def Trademark_def)
  have g: "\<not> hasTierVariants (js ''Right-Handed'')"
    by (simp add: hasTierVariants_def js_def DoubleCircle_def Circle_def Cross_def)
  have c: "isTierCompatible DoubleCircle Circle" "\<not> isTierCompatible DoubleCircle Cross"
    "DoubleCircle \<noteq> Circle" "DoubleCircle \<noteq> Cross"
    by (simp_all add: isTierCompatible_def tierMap_def DoubleCircle_def Circle_def Cross_def
        Copyright_def Registered_def Trademark_def)
  have a1: "applyTierMatchingBonus ?name (js ''Right-Handed O'') (4 / 5) = 1"
    using tier_adjustment [of ?name "js ''Right-Handed O''" "4 / 5"] h n p1 c by simp
  have a2: "applyTierMatchingBonus ?name ?name (4 / 5) = 13 / 10"
    using tier_adjustment [of ?name ?name "4 / 5"] h n by simp
  have a3: "applyTierMatchingBonus ?name (js ''Right-Handed '' @ [Cross]) (4 / 5) = 3 / 5"
    using tier_adjustment [of ?name "js ''Right-Handed '' @ [Cross]" "4 / 5"] h n p2 c by simp
  have a4: "applyTierMatchingBonus (js ''Right-Handed'') (js ''Right-Handed O'') (4 / 5) = 4 / 5"
    using tier_adjustment [of "js ''Right-Handed''" "js ''Right-Handed O''" "4 / 5"] g by blast
  from h p1 a1 a2 a3 g a4 show ?thesis
    by (intro conjI)
qed

subsection \<open>The candidates of a line\<close>

definition adjustedSimilarity :: "(jstring \<Rightarrow> jstring) \<Rightarrow> jstring \<Rightarrow> jstring \<Rightarrow> real" where
  "adjustedSimilarity toLowerCase skillName name =
     applyTierMatchingBonus name skillName
       (calculateSimilarity (normalizeString toLowerCase name) (normalizeString toLowerCase skillName))"

text \<open>
  The identifiers a line is compared with, each with the adjusted similarity of one of
  its display names, in the order the loops of \<^const>\<open>findMatchingSkill\<close> visit them.
\<close>

definition entryCandidates ::
  "(jstring \<Rightarrow> jstring) \<Rightarrow> jstring \<Rightarrow> bool \<Rightarrow> jstring \<times> jstring list \<Rightarrow> (jstring \<times> real) list" where
  "entryCandidates toLowerCase skillName isUniqueSkill entry =
     (if startsWith10 (fst entry) = isUniqueSkill
      then map (\<lambda>name. (fst entry, adjustedSimilarity toLowerCase skillName name))
             (filter (\<lambda>name. fuzzyMatch toLowerCase name skillName) (snd entry))
      else [])"

definition candidates ::
  "(jstring \<Rightarrow> jstring) \<Rightarrow> SkillNames \<Rightarrow> jstring \<Rightarrow> bool \<Rightarrow> (jstring \<times> real) list" where
  "candidates toLowerCase skillnames skillName isUniqueSkill =
     concat (map (entryCandidates toLowerCase skillName isUniqueSkill) skillnames)"

definition keepBetter :: "jstring option \<times> real \<Rightarrow> jstring \<times> real \<Rightarrow> jstring option \<times> real" where
  "keepBetter best c = (if snd c > snd best then (Some (fst c), snd c) else best)"

lemma considerName_fold:
  "foldl (considerName toLowerCase skillName skillId) best names =
     foldl keepBetter best
       (map (\<lambda>name. (skillId, adjustedSimilarity toLowerCase skillName name))
          (filter (\<lambda>name. fuzzyMatch toLowerCase name skillName) names))"
  by (induction names arbitrary: best)
     (simp_all add: considerName_def keepBetter_def adjustedSimilarity_def Let_def)

lemma considerEntry_fold:
  "considerEntry toLowerCase skillName isUniqueSkill best entry =
     foldl keepBetter best (entryCandidates toLowerCase skillName isUniqueSkill entry)"
  by (cases entry) (simp add: considerEntry_def entryCandidates_def considerName_fold)

lemma entries_fold:
  "foldl (considerEntry toLowerCase skillName isUniqueSkill) best skillnames =
     foldl keepBetter best (candidates toLowerCase skillnames skillName isUniqueSkill)"
  by (induction skillnames arbitrary: best) (simp_all add: candidates_def considerEntry_fold)

lemma keepBetter_gt: "snd c > s \<Longrightarrow> keepBetter (b, s) c = (Some (fst c), snd c)"
  by (simp add: keepBetter_def)

lemma keepBetter_le: "\<not> snd c > s \<Longrightarrow> keepBetter (b, s) c = (b, s)"
  by (simp add: keepBetter_def)

lemma foldl_keepBetter:
  "foldl keepBetter (b, s) cs = (b', s') \<Longrightarrow>
     s \<le> s' \<and> (\<forall>c \<in> set cs. snd c \<le> s')
     \<and> (b' = b \<and> s' = s \<or> (\<exists>c \<in> set cs. b' = Some (fst c) \<and> s' = snd c \<and> s < s'))"
proof (induction cs arbitrary: b s)
  case Nil
  then show ?case by simp
next
  case (Cons c cs)
  show ?case
  proof (cases "snd c > s")
    case True
    with Cons.prems have "foldl keepBetter (Some (fst c), snd c) cs = (b', s')"
      by (simp add: keepBetter_gt)
    from Cons.IH [OF this] True show ?thesis by auto
  next
    case False
    with Cons.prems have "foldl keepBetter (b, s) cs = (b', s')"
      by (simp add: keepBetter_le)
    from Cons.IH [OF this] False show ?thesis by auto
  qed
qed

lemma candidate_partition:
  "c \<in> set (candidates toLowerCase skillnames skillName isUniqueSkill) \<Longrightarrow>
     startsWith10 (fst c) = isUniqueSkill
     \<and> (\<exists>names name. (fst c, names) \<in> set skillnames \<and> name \<in> set names
          \<and> fuzzyMatch toLowerCase name skillName
          \<and> snd c = adjustedSimilarity toLowerCase skillName name)"
proof -
  assume "c \<in> set (candidates toLowerCase skillnames skillName isUniqueSkill)"
  then obtain entry where e: "entry \<in> set skillnames"
    "c \<in> set (entryCandidates toLowerCase skillName isUniqueSkill entry)"
    by (auto simp: candidates_def)
  from e(2) have u: "startsWith10 (fst entry) = isUniqueSkill"
    by (auto simp: entryCandidates_def split: if_splits)
  with e(2) obtain name where n: "name \<in> set (snd entry)" "fuzzyMatch toLowerCase name skillName"
    "c = (fst entry, adjustedSimilarity toLowerCase skillName name)"
    by (auto simp: entryCandidates_def)
  from e(1) have m: "(fst c, snd entry) \<in> set skillnames"
    by (simp add: n(3))
  from u have a: "startsWith10 (fst c) = isUniqueSkill"
    by (simp add: n(3))
  have b: "snd c = adjustedSimilarity toLowerCase skillName name"
    by (simp add: n(3))
  from a m n(1,2) b show ?thesis
    by blast
qed

lemma findMatchingSkill_Some:
  assumes "findMatchingSkill toLowerCase skillnames skillName isUniqueSkill = Some skillId"
  shows "\<exists>sim. (skillId, sim) \<in> set (candidates toLowerCase skillnames skillName isUniqueSkill)
           \<and> 6 / 10 < sim
           \<and> (\<forall>c \<in> set (candidates toLowerCase skillnames skillName isUniqueSkill). snd c \<le> sim)"
proof -
  let ?cs = "candidates toLowerCase skillnames skillName isUniqueSkill"
  obtain b s where bs: "foldl keepBetter (None, 0) ?cs = (b, s)"
    by (cases "foldl keepBetter (None, 0) ?cs")
  with assms have r: "b = Some skillId" "6 / 10 < s"
    by (simp_all add: findMatchingSkill_def entries_fold split: if_splits)
  from foldl_keepBetter [OF bs] r obtain c where "c \<in> set ?cs" "skillId = fst c" "s = snd c"
    "\<forall>c \<in> set ?cs. snd c \<le> s"
    by auto
  with r(2) show ?thesis
    by (intro exI [of _ s]) (metis prod.collapse)
qed

lemma findMatchingSkill_None:
  "(findMatchingSkill toLowerCase skillnames skillName isUniqueSkill = None) =
     (\<forall>c \<in> set (candidates toLowerCase skillnames skillName isUniqueSkill). snd c \<le> 6 / 10)"
proof -
  let ?cs = "candidates toLowerCase skillnames skillName isUniqueSkill"
  obtain b s where bs: "foldl keepBetter (None, 0) ?cs = (b, s)"
    by (cases "foldl keepBetter (None, 0) ?cs")
  note f = foldl_keepBetter [OF bs]
  have r: "findMatchingSkill toLowerCase skillnames skillName isUniqueSkill =
             (if 6 / 10 < s then b else None)"
    by (simp add: findMatchingSkill_def entries_fold bs)
  show ?thesis
  proof (cases "6 / 10 < s")
    case True
    with f obtain c where c: "c \<in> set ?cs" "b = Some (fst c)" "s = snd c"
      by auto
    from c(1,3) True have "\<not> (\<forall>c \<in> set ?cs. snd c \<le> 6 / 10)"
      by (intro notI) (metis not_less)
    moreover from c(2) True r
    have "findMatchingSkill toLowerCase skillnames skillName isUniqueSkill \<noteq> None"
      by simp
    ultimately show ?thesis
      by blast
  next
    case False
    with f r show ?thesis
      by fastforce
  qed
qed

subsection \<open>The lines that are resolved\<close>

definition resolveLine ::
  "(jstring \<Rightarrow> jstring) \<Rightarrow> SkillNames \<Rightarrow> nat \<Rightarrow> jstring \<Rightarrow> jstring list" where
  "resolveLine toLowerCase skillnames i parsedSkill =
     (if parsedSkill = [] \<or> trim parsedSkill = [] then []
      else case findMatchingSkill toLowerCase skillnames parsedSkill (i = 0) of
             Some skillId \<Rightarrow> if skillId \<noteq> [] then [skillId] else []
           | None \<Rightarrow> [])"

lemma loop_resolve:
  "findMatchingSkills_loop toLowerCase skillnames i parsedSkills matchedSkills =
     matchedSkills @
     concat (map (\<lambda>(j, parsedSkill). resolveLine toLowerCase skillnames j parsedSkill)
               (enumerate i parsedSkills))"
  by (induction parsedSkills arbitrary: i matchedSkills)
     (simp_all add: resolveLine_def Let_def split: option.split)

lemma resolveLine_member:
  "skillId \<in> set (resolveLine toLowerCase skillnames i parsedSkill) \<Longrightarrow>
     findMatchingSkill toLowerCase skillnames parsedSkill (i = 0) = Some skillId"
  by (auto simp: resolveLine_def split: if_splits option.splits)

text \<open>A small catalog: an original unique skill, its inherited variant and a tiered skill.\<close>

definition sampleSkillNames :: SkillNames where
  "sampleSkillNames =
     [(js ''100011'', [js ''Shooting Star'']),
      (js ''900011'', [js ''Shooting Star'']),
      (js ''200012'', [js ''Right-Handed '' @ [Circle]])]"

lemmas resolver_eval =
  findMatchingSkill_def considerEntry_def considerName_def fuzzyMatch_def normalizeString_def
  calculateSimilarity_def levenshteinDistance_def applyTierMatchingBonus_def hasTierVariants_def
  extractTierSymbol_def isTierGlyph_def isTierCompatible_def tierMap_def endsWith_def
  startsWith10_def asciiLower_def trim_def isSpace_def isWord_def isUpper_def js_def
  DoubleCircle_def Circle_def Cross_def Copyright_def Registered_def Trademark_def
  sampleSkillNames_def Let_def

lemma sample_unique:
  "findMatchingSkill asciiLower sampleSkillNames (js ''Shooting Star'') True = Some (js ''100011'')"
  by (simp add: resolver_eval upt_conv_Cons)

lemma sample_inherited:
  "findMatchingSkill asciiLower sampleSkillNames (js ''Shooting Star'') False = Some (js ''900011'')"
  by (simp add: resolver_eval upt_conv_Cons)

lemma sample_noise:
  "findMatchingSkill asciiLower sampleSkillNames (js ''zzzz'') False = None"
  by (simp add: resolver_eval upt_conv_Cons)

section \<open>Partition of the catalog by slot (C6)\<close>

text \<open>
  C6. The output of \<^const>\<open>findMatchingSkills\<close> is made of the identifiers resolved
  for the lines, in input order, a line that is blank or unresolved contributing
  nothing. An identifier resolved for the line at index \<open>i\<close> starts with \<open>10\<close> exactly
  when \<open>i = 0\<close>: the first line only resolves to the original-unique partition, every
  other line never does. A line is resolved to an identifier only when that identifier
  is a candidate of the line's partition whose adjusted similarity exceeds 0.6 and is
  the highest of all candidates, and a line has no match exactly when no candidate
  exceeds 0.6.
\<close>

theorem skill_partition:
  "findMatchingSkills toLowerCase skillnames parsedSkills =
     concat (map (\<lambda>(i, parsedSkill). resolveLine toLowerCase skillnames i parsedSkill)
               (enumerate 0 parsedSkills))
   \<and> (\<forall>i parsedSkill skillId.
         skillId \<in> set (resolveLine toLowerCase skillnames i parsedSkill) \<longrightarrow>
           findMatchingSkill toLowerCase skillnames parsedSkill (i = 0) = Some skillId
           \<and> startsWith10 skillId = (i = 0))
   \<and> (\<forall>parsedSkill u skillId.
         findMatchingSkill toLowerCase skillnames parsedSkill u = Some skillId \<longrightarrow>
           startsWith10 skillId = u
           \<and> (\<exists>sim. (skillId, sim) \<in> set (candidates toLowerCase skillnames parsedSkill u)
                 \<and> 6 / 10 < sim
                 \<and> (\<forall>c \<in> set (candidates toLowerCase skillnames parsedSkill u). snd c \<le> sim)))
   \<and> (\<forall>parsedSkill u.
         (findMatchingSkill toLowerCase skillnames parsedSkill u = None) =
           (\<forall>c \<in> set (candidates toLowerCase skillnames parsedSkill u). snd c \<le> 6 / 10))"
proof -
  have a: "findMatchingSkills toLowerCase skillnames parsedSkills =
     concat (map (\<lambda>(i, parsedSkill). resolveLine toLowerCase skillnames i parsedSkill)
               (enumerate 0 parsedSkills))"
    by (simp add: findMatchingSkills_def loop_resolve)
  have c: "\<forall>parsedSkill u skillId.
         findMatchingSkill toLowerCase skillnames parsedSkill u = Some skillId \<longrightarrow>
           startsWith10 skillId = u
           \<and> (\<exists>sim. (skillId, sim) \<in> set (candidates toLowerCase skillnames parsedSkill u)
                 \<and> 6 / 10 < sim
                 \<and> (\<forall>c \<in> set (candidates toLowerCase skillnames parsedSkill u). snd c \<le> sim))"
  proof (intro allI impI)
    fix parsedSkill u skillId
    assume f: "findMatchingSkill toLowerCase skillnames parsedSkill u = Some skillId"
    from findMatchingSkill_Some [OF f] obtain sim where
      sim: "(skillId, sim) \<in> set (candidates toLowerCase skillnames parsedSkill u)"
        "6 / 10 < sim"
        "\<forall>c \<in> set (candidates toLowerCase skillnames parsedSkill u). snd c \<le> sim"
      by blast
    from candidate_partition [OF sim(1)] have "startsWith10 skillId = u"
      by simp
    with sim show "startsWith10 skillId = u
           \<and> (\<exists>sim. (skillId, sim) \<in> set (candidates toLowerCase skillnames parsedSkill u)
                 \<and> 6 / 10 < sim
                 \<and> (\<forall>c \<in> set (candidates toLowerCase skillnames parsedSkill u). snd c \<le> sim))"
      by blast
  qed
  have b: "\<forall>i parsedSkill skillId.
         skillId \<in> set (resolveLine toLowerCase skillnames i parsedSkill) \<longrightarrow>
           findMatchingSkill toLowerCase skillnames parsedSkill (i = 0) = Some skillId
           \<and> startsWith10 skillId = (i = 0)"
    using resolveLine_member c by blast
  have d: "\<forall>parsedSkill u.
         (findMatchingSkill toLowerCase skillnames parsedSkill u = None) =
           (\<forall>c \<in> set (candidates toLowerCase skillnames parsedSkill u). snd c \<le> 6 / 10)"
    by (simp only: findMatchingSkill_None) simp
  from a b c d show ?thesis
    by (intro conjI)
qed

text \<open>
  The theorem on four lines against \<^const>\<open>sampleSkillNames\<close>: the same text resolves to
  the original unique skill in the first slot and to its inherited variant in the third;
  the blank second line and the noise in the fourth are left out.
\<close>

theorem skill_partition_witness:
  "findMatchingSkills asciiLower sampleSkillNames
     [js ''Shooting Star'', js ''  '', js ''Shooting Star'', js ''zzzz'']
     = [js ''100011'', js ''900011'']
   \<and> startsWith10 (js ''100011'') \<and> \<not> startsWith10 (js ''900011'')"
proof -
  have r0: "resolveLine asciiLower sampleSkillNames 0 (js ''Shooting Star'') = [js ''100011'']"
    by (simp add: resolveLine_def sample_unique) (simp add: js_def trim_def isSpace_def)
  have r1: "resolveLine asciiLower sampleSkillNames 1 (js ''  '') = []"
    by (simp add: resolveLine_def js_def trim_def isSpace_def)
  have r2: "resolveLine asciiLower sampleSkillNames 2 (js ''Shooting Star'') = [js ''900011'']"
    by (simp add: resolveLine_def sample_inherited) (simp add: js_def trim_def isSpace_def)
  have r3: "resolveLine asciiLower sampleSkillNames 3 (js ''zzzz'') = []"
    by (simp add: resolveLine_def sample_noise)
  have e: "enumerate 0 [js ''Shooting Star'', js ''  '', js ''Shooting Star'', js ''zzzz'']
      = [(0, js ''Shooting Star''), (1, js ''  ''), (2, js ''Shooting Star''), (3, js ''zzzz'')]"
    by (simp add: eval_nat_numeral)
  note t = skill_partition [of asciiLower sampleSkillNames
      "[js ''Shooting Star'', js ''  '', js ''Shooting Star'', js ''zzzz'']"]
  from t have "findMatchingSkills asciiLower sampleSkillNames
     [js ''Shooting Star'', js ''  '', js ''Shooting Star'', js ''zzzz'']
     = concat (map (\<lambda>(i, parsedSkill). resolveLine asciiLower sampleSkillNames i parsedSkill)
         (enumerate 0 [js ''Shooting Star'', js ''  '', js ''Shooting Star'', js ''zzzz'']))"
    by (elim conjE)
  then have f: "findMatchingSkills asciiLower sampleSkillNames
     [js ''Shooting Star'', js ''  '', js ''Shooting Star'', js ''zzzz'']
     = [js ''100011'', js ''900011'']"
    unfolding e by (simp add: r0 r1 [unfolded One_nat_def] r2 r3)
  from t have "\<forall>i parsedSkill skillId.
         skillId \<in> set (resolveLine asciiLower sampleSkillNames i parsedSkill) \<longrightarrow>
           findMatchingSkill asciiLower sampleSkillNames parsedSkill (i = 0) = Some skillId
           \<and> startsWith10 skillId = (i = 0)"
    by (elim conjE)
  then have p: "\<And>i parsedSkill skillId.
         skillId \<in> set (resolveLine asciiLower sampleSkillNames i parsedSkill) \<Longrightarrow>
           startsWith10 skillId = (i = 0)"
    by blast
  have "startsWith10 (js ''100011'') = ((0::nat) = 0)"
    by (rule p [of _ 0 "js ''Shooting Star''"]) (simp add: r0)
  moreover have "startsWith10 (js ''900011'') = ((2::nat) = 0)"
    by (rule p [of _ 2 "js ''Shooting Star''"]) (simp add: r2)
  ultimately show ?thesis
    using f by simp
qed

end
